theory Spec2Isabelle
  imports Complex_Main "HOL-Library.Log_Nat"
begin

text \<open>
  The application \<^verbatim>\<open>app.py\<close> compares what a given amount of debt costs per year
  at the Treasury rate of a fixed day in the past and at the latest rate, both read
  from FRED. This theory embeds its two helper functions, the cache in front of
  them, and the script that calls them and does the arithmetic, and proves what the
  specification says about them.
\<close>

section \<open>Python floats\<close>

text \<open>
  A Python float (and a \<^verbatim>\<open>numpy.float64\<close>) is an IEEE 754 binary64 value: a finite
  number, one of the two infinities, or NaN. A finite value is kept as the rational
  it denotes; the two signed zeros are both \<open>Fin 0\<close> (they compare equal). Every
  arithmetic operation returns the exact result rounded to the nearest binary64
  value, ties to the even significand.
\<close>

datatype pyfloat = Fin rat | PInf | NInf | NaN

text \<open>Rounding to the nearest integer, ties to even.\<close>

definition rne :: "rat \<Rightarrow> int" where
  "rne x = (let n = \<lfloor>x\<rfloor>; r = x - of_int n
            in if r < 1 / 2 then n else if 1 / 2 < r then n + 1
               else if even n then n else n + 1)"

text \<open>The binary exponent \<open>\<lfloor>log\<^sub>2 x\<rfloor>\<close> of a positive rational.\<close>

definition ilog2 :: "rat \<Rightarrow> int" where
  "ilog2 x = (let (p, q) = quotient_of x; k = bitlen p - bitlen q
              in if 2 powi k \<le> x then k else k - 1)"

text \<open>
  The exponent binary64 gives a positive \<open>x\<close> (never below that of the subnormal
  numbers), and the spacing of the binary64 values around it: 53 significant bits.
\<close>

definition expo :: "rat \<Rightarrow> int" where
  "expo x = max (ilog2 x) (- 1022)"

definition quantum :: "rat \<Rightarrow> rat" where
  "quantum x = 2 powi (expo x - 52)"

definition round_mag :: "rat \<Rightarrow> rat" where
  "round_mag x = of_int (rne (x / quantum x)) * quantum x"

text \<open>The binary64 value of an exact result; beyond the largest finite value, an infinity.\<close>

definition fl :: "rat \<Rightarrow> pyfloat" where
  "fl x = (if x = 0 then Fin 0
           else if 0 < x then (let y = round_mag x in if y < 2 ^ 1024 then Fin y else PInf)
           else (let y = round_mag (- x) in if y < 2 ^ 1024 then Fin (- y) else NInf))"

text \<open>The comparisons \<^verbatim>\<open>a < b\<close> and \<^verbatim>\<open>a <= b\<close>: false whenever NaN is involved.\<close>

fun flt :: "pyfloat \<Rightarrow> pyfloat \<Rightarrow> bool" where
  "flt NaN _ = False"
| "flt _ NaN = False"
| "flt (Fin a) (Fin b) = (a < b)"
| "flt _ NInf = False"
| "flt PInf _ = False"
| "flt NInf _ = True"
| "flt _ PInf = True"

fun fle :: "pyfloat \<Rightarrow> pyfloat \<Rightarrow> bool" where
  "fle NaN _ = False"
| "fle _ NaN = False"
| "fle (Fin a) (Fin b) = (a \<le> b)"
| "fle NInf _ = True"
| "fle _ PInf = True"
| "fle _ NInf = False"
| "fle PInf _ = False"

text \<open>The product \<^verbatim>\<open>a * b\<close> and the difference \<^verbatim>\<open>a - b\<close>.\<close>

fun fmul :: "pyfloat \<Rightarrow> pyfloat \<Rightarrow> pyfloat" where
  "fmul NaN _ = NaN"
| "fmul _ NaN = NaN"
| "fmul (Fin a) (Fin b) = fl (a * b)"
| "fmul (Fin a) PInf = (if a = 0 then NaN else if 0 < a then PInf else NInf)"
| "fmul (Fin a) NInf = (if a = 0 then NaN else if 0 < a then NInf else PInf)"
| "fmul PInf (Fin b) = (if b = 0 then NaN else if 0 < b then PInf else NInf)"
| "fmul NInf (Fin b) = (if b = 0 then NaN else if 0 < b then NInf else PInf)"
| "fmul PInf PInf = PInf"
| "fmul PInf NInf = NInf"
| "fmul NInf PInf = NInf"
| "fmul NInf NInf = PInf"

fun fsub :: "pyfloat \<Rightarrow> pyfloat \<Rightarrow> pyfloat" where
  "fsub NaN _ = NaN"
| "fsub _ NaN = NaN"
| "fsub (Fin a) (Fin b) = fl (a - b)"
| "fsub PInf PInf = NaN"
| "fsub NInf NInf = NaN"
| "fsub PInf _ = PInf"
| "fsub NInf _ = NInf"
| "fsub _ PInf = NInf"
| "fsub _ NInf = PInf"

text \<open>The quotient \<^verbatim>\<open>x / 100\<close>, the only division of the program.\<close>

definition div100 :: "pyfloat \<Rightarrow> pyfloat" where
  "div100 x = (case x of Fin a \<Rightarrow> fl (a / 100) | PInf \<Rightarrow> PInf | NInf \<Rightarrow> NInf | NaN \<Rightarrow> NaN)"

text \<open>
  What the format \<^verbatim>\<open>{x:,.2f}\<close> prints, as a number of hundredths: the exact value
  of the float rounded to two decimals, ties to even. Infinities and NaN print as words.
\<close>

definition cents :: "pyfloat \<Rightarrow> int option" where
  "cents x = (case x of Fin a \<Rightarrow> Some (rne (a * 100)) | _ \<Rightarrow> None)"

text \<open>
  A magnitude far from the ends of the binary64 range, where neither overflow nor
  underflow can occur in the calculation below: zero, or between \<open>2\<^sup>-\<^sup>4\<^sup>0\<^sup>0\<close> and \<open>2\<^sup>4\<^sup>0\<^sup>0\<close>.
\<close>

definition moderate :: "rat \<Rightarrow> bool" where
  "moderate x \<longleftrightarrow> x = 0 \<or> (1 / 2 ^ 400 \<le> \<bar>x\<bar> \<and> \<bar>x\<bar> \<le> 2 ^ 400)"

section \<open>Series and the FRED client\<close>

text \<open>
  A pandas Timestamp at midnight, counted in days (the proleptic Gregorian ordinal
  of the day), so that \<^verbatim>\<open>date - timedelta(days=7)\<close> is \<open>date - 7\<close>.
\<close>

type_synonym date = int

text \<open>
  The pandas Series that \<^verbatim>\<open>get_series\<close> returns: the rows in the order of the
  response, each with its index (the observation date) and its value. A missing
  observation is NaN.
\<close>

type_synonym series = "(date \<times> pyfloat) list"

text \<open>
  The FRED client. Its only operation is
  \<^verbatim>\<open>get_series(series_id, observation_start=None, observation_end=None)\<close>,
  which either raises (\<open>Inl\<close> with the text of the exception) or returns a Series.
\<close>

type_synonym fred_client = "string \<Rightarrow> date option \<Rightarrow> date option \<Rightarrow> string + series"

text \<open>What a call does besides returning: a request to FRED, or an error box on the page.\<close>

datatype event = is_RemoteCall: RemoteCall string "date option" "date option" | is_StError: StError string

text \<open>
  What FRED promises of a response: only observations dated within the requested
  range, in chronological order.
\<close>

definition in_range :: "date option \<Rightarrow> date option \<Rightarrow> date \<Rightarrow> bool" where
  "in_range a b d \<longleftrightarrow>
     (case a of None \<Rightarrow> True | Some s \<Rightarrow> s \<le> d) \<and> (case b of None \<Rightarrow> True | Some e \<Rightarrow> d \<le> e)"

definition honours_range :: "fred_client \<Rightarrow> bool" where
  "honours_range fred_client \<longleftrightarrow>
     (\<forall>series_id a b data. fred_client series_id a b = Inr data \<longrightarrow>
        (\<forall>(d, v) \<in> set data. in_range a b d))"

definition chronological :: "series \<Rightarrow> bool" where
  "chronological data \<longleftrightarrow> sorted (map fst data)"

text \<open>
  A client of a remote source that holds a fixed history for each series it knows,
  and answers a request with the observations of the requested range, in stored order.
\<close>

definition serving :: "(string \<Rightarrow> string + series) \<Rightarrow> fred_client" where
  "serving db series_id a b =
     (case db series_id of
        Inl e \<Rightarrow> Inl e
      | Inr data \<Rightarrow> Inr (filter (\<lambda>(d, v). in_range a b d) data))"

text \<open>
  A client of a remote source that answers every request with the same rows,
  whatever the series and the range asked for.
\<close>

definition answering :: "series \<Rightarrow> fred_client" where
  "answering data series_id a b = Inr data"

section \<open>Helper functions of the application\<close>

definition dropna :: "series \<Rightarrow> series" where
  "dropna data = filter (\<lambda>(d, v). v \<noteq> NaN) data"

text \<open>
  The body of \<^verbatim>\<open>get_fred_rate(_fred_client, series_id, date)\<close>: the pair it returns,
  and what it did on the way.
\<close>

definition get_fred_rate ::
  "fred_client \<Rightarrow> string \<Rightarrow> date \<Rightarrow> (pyfloat option \<times> date option) \<times> event list" where
  "get_fred_rate fred_client series_id date =
     (let start_date = date - 7;
          end_date = date;
          call = RemoteCall series_id (Some start_date) (Some end_date)
      in case fred_client series_id (Some start_date) (Some end_date) of
           Inr data \<Rightarrow>
             (let data = dropna data
              in if data \<noteq> [] then ((Some (snd (last data)), Some (fst (last data))), [call])
                 else ((None, None), [call]))
         | Inl e \<Rightarrow>
             ((None, None),
              [call, StError (''Error fetching historical FRED data for '' @ series_id @ '': '' @ e)]))"

text \<open>The body of \<^verbatim>\<open>get_current_fred_rate(_fred_client, series_id)\<close>.\<close>

definition get_current_fred_rate ::
  "fred_client \<Rightarrow> string \<Rightarrow> (pyfloat option \<times> date option) \<times> event list" where
  "get_current_fred_rate fred_client series_id =
     (let call = RemoteCall series_id None None
      in case fred_client series_id None None of
           Inr data \<Rightarrow>
             (let data = dropna data
              in if data \<noteq> [] then ((Some (snd (last data)), Some (fst (last data))), [call])
                 else ((None, None), [call]))
         | Inl e \<Rightarrow>
             ((None, None),
              [call, StError (''Error fetching current FRED data for '' @ series_id @ '': '' @ e)]))"

subsection \<open>The decorator \<^verbatim>\<open>st.cache_data(ttl=...)\<close>\<close>

text \<open>
  Streamlit keeps, for each tuple of hashed arguments, what the function returned
  and when. A call within \<open>ttl\<close> seconds of the stored one returns the stored value
  without running the body, and shows again the page elements the body had shown;
  any other call runs the body and stores its result. An argument whose name starts
  with an underscore (here \<^verbatim>\<open>_fred_client\<close>) is not part of the key.
\<close>

type_synonym ('k, 'r) cache = "'k \<rightharpoonup> ('r \<times> event list) \<times> nat"

definition cache_data ::
  "nat \<Rightarrow> ('k \<Rightarrow> 'r \<times> event list) \<Rightarrow> ('k, 'r) cache \<Rightarrow> nat \<Rightarrow> 'k
     \<Rightarrow> ('r \<times> event list) \<times> ('k, 'r) cache" where
  "cache_data ttl f cache now k =
     (let miss = (f k, cache(k \<mapsto> (f k, now)))
      in case cache k of
           Some ((r, evs), stored) \<Rightarrow>
             if now < stored + ttl then ((r, filter is_StError evs), cache) else miss
         | None \<Rightarrow> miss)"

definition cached_get_fred_rate ::
  "fred_client \<Rightarrow> (string \<times> date, pyfloat option \<times> date option) cache \<Rightarrow> nat \<Rightarrow> string \<Rightarrow> date
     \<Rightarrow> ((pyfloat option \<times> date option) \<times> event list)
        \<times> (string \<times> date, pyfloat option \<times> date option) cache" where
  "cached_get_fred_rate fred_client cache now series_id date =
     cache_data 3600 (\<lambda>(s, d). get_fred_rate fred_client s d) cache now (series_id, date)"

definition cached_get_current_fred_rate ::
  "fred_client \<Rightarrow> (string, pyfloat option \<times> date option) cache \<Rightarrow> nat \<Rightarrow> string
     \<Rightarrow> ((pyfloat option \<times> date option) \<times> event list)
        \<times> (string, pyfloat option \<times> date option) cache" where
  "cached_get_current_fred_rate fred_client cache now series_id =
     cache_data 900 (get_current_fred_rate fred_client) cache now series_id"

text \<open>A cache whose entries hold what the function returns for their keys.\<close>

definition cache_agrees :: "('k \<Rightarrow> 'r \<times> event list) \<Rightarrow> ('k, 'r) cache \<Rightarrow> bool" where
  "cache_agrees f cache \<longleftrightarrow> (\<forall>k e t. cache k = Some (e, t) \<longrightarrow> fst e = fst (f k))"

section \<open>The page script\<close>

definition FRED_SERIES :: "(string \<times> string) list" where
  "FRED_SERIES =
     [(''3-Month Treasury Bill'', ''DGS3MO''),
      (''1-Year Treasury'', ''DGS1''),
      (''5-Year Treasury'', ''DGS5''),
      (''10-Year Treasury'', ''DGS10''),
      (''30-Year Treasury'', ''DGS30'')]"

text \<open>\<^verbatim>\<open>pd.to_datetime("2025-04-01")\<close>: day 739342.\<close>

definition HISTORICAL_DATE :: date where
  "HISTORICAL_DATE = 739342"

text \<open>The three results of the section "Interest Cost Calculation".\<close>

definition historical_interest_cost :: "pyfloat \<Rightarrow> pyfloat \<Rightarrow> pyfloat" where
  "historical_interest_cost debt_amount historical_rate = fmul debt_amount (div100 historical_rate)"

definition current_interest_cost :: "pyfloat \<Rightarrow> pyfloat \<Rightarrow> pyfloat" where
  "current_interest_cost debt_amount current_rate = fmul debt_amount (div100 current_rate)"

definition additional_cost :: "pyfloat \<Rightarrow> pyfloat \<Rightarrow> pyfloat \<Rightarrow> pyfloat" where
  "additional_cost debt_amount historical_rate current_rate =
     fsub (current_interest_cost debt_amount current_rate)
          (historical_interest_cost debt_amount historical_rate)"

datatype py_error = KeyError string

record page =
  historical :: "pyfloat option \<times> date option"
  current :: "pyfloat option \<times> date option"
  interest_costs :: "(pyfloat \<times> pyfloat \<times> pyfloat) option"
  events :: "event list"

record caches =
  historical_cache :: "(string \<times> date, pyfloat option \<times> date option) cache"
  current_cache :: "(string, pyfloat option \<times> date option) cache"


definition script ::
  "fred_client \<Rightarrow> caches \<Rightarrow> nat \<Rightarrow> string \<Rightarrow> pyfloat \<Rightarrow> py_error + page \<times> caches" where
  "script fred cs now selected_maturity_name debt_amount_billions =
     (case map_of FRED_SERIES selected_maturity_name of
        None \<Rightarrow> Inl (KeyError selected_maturity_name)
      | Some selected_series_id \<Rightarrow>
          (let debt_amount = fmul debt_amount_billions (Fin 1000000000);
               (h, hc) = cached_get_fred_rate fred (historical_cache cs) now
                           selected_series_id HISTORICAL_DATE;
               historical_rate = fst (fst h);
               ev1 = snd h @ (if historical_rate \<noteq> None then []
                              else [StError ''Could not retrieve rate for 2025-04-01.'']);
               (c, cc) = cached_get_current_fred_rate fred (current_cache cs) now
                           selected_series_id;
               current_rate = fst (fst c);
               ev2 = snd c @ (if current_rate \<noteq> None then []
                              else [StError ''Could not retrieve the current rate.'']);
               costs = (case (historical_rate, current_rate) of
                          (Some hr, Some cr) \<Rightarrow>
                            Some (historical_interest_cost debt_amount hr,
                                  current_interest_cost debt_amount cr,
                                  additional_cost debt_amount hr cr)
                        | _ \<Rightarrow> None)
           in Inr (\<lparr>historical = fst h, current = fst c, interest_costs = costs,
                     events = ev1 @ ev2\<rparr>,
                   \<lparr>historical_cache = hc, current_cache = cc\<rparr>)))"

section \<open>A remote source for the examples\<close>

text \<open>
  The 10-year series around the reference date 2025-04-01 (day 739342), with a
  holiday gap, 4.20 on the reference date and 4.50 on the day after; a series with
  nothing but missing values; every other series is unknown to the source.
\<close>

definition example_history :: "string \<Rightarrow> string + series" where
  "example_history series_id =
     (if series_id = ''DGS10'' then
        Inr [(739339, Fin (17 / 4)), (739340, NaN), (739341, Fin (33 / 8)),
             (739342, Fin (4728779608739021 / 1125899906842624)), (739343, Fin (9 / 2))]
      else if series_id = ''DGS30'' then Inr [(739341, NaN), (739342, NaN)]
      else Inl ''Bad Request.  The series does not exist.'')"

definition example_fred :: fred_client where
  "example_fred = serving example_history"

definition no_caches :: caches where
  "no_caches = \<lparr>historical_cache = Map.empty, current_cache = Map.empty\<rparr>"

section \<open>Facts about binary64 rounding\<close>

lemma rne_of_int: "rne (of_int n) = n"
  by (simp add: rne_def)

lemma rne_ge_floor: "\<lfloor>x\<rfloor> \<le> rne x"
  by (simp add: rne_def Let_def)

lemma rne_le_floor1: "rne x \<le> \<lfloor>x\<rfloor> + 1"
  by (simp add: rne_def Let_def)

lemma rne_mono: "x \<le> y \<Longrightarrow> rne x \<le> rne y"
proof -
  assume xy: "x \<le> y"
  have "\<lfloor>x\<rfloor> \<le> \<lfloor>y\<rfloor>" using xy by (rule floor_mono)
  then consider "\<lfloor>x\<rfloor> = \<lfloor>y\<rfloor>" | "\<lfloor>x\<rfloor> + 1 \<le> \<lfloor>y\<rfloor>" by linarith
  then show ?thesis
  proof cases
    case 1
    with xy show ?thesis by (auto simp: rne_def Let_def)
  next
    case 2
    have "rne x \<le> \<lfloor>x\<rfloor> + 1" by (rule rne_le_floor1)
    also have "\<dots> \<le> \<lfloor>y\<rfloor>" by (rule 2)
    also have "\<dots> \<le> rne y" by (rule rne_ge_floor)
    finally show ?thesis .
  qed
qed

lemma rne_err: "\<bar>of_int (rne x) - x\<bar> \<le> 1 / 2"
proof -
  have "of_int \<lfloor>x\<rfloor> \<le> x" "x < of_int \<lfloor>x\<rfloor> + 1" by linarith+
  then show ?thesis by (auto simp: rne_def Let_def)
qed

lemma ilog2_bounds:
  assumes "0 < x"
  shows "2 powi ilog2 x \<le> x" and "x < 2 powi (ilog2 x + 1)"
proof -
  obtain p q where pq: "quotient_of x = (p, q)" by force
  have q: "0 < q" using quotient_of_denom_pos [OF pq] .
  have x: "x = of_int p / of_int q" using quotient_of_div [OF pq] .
  have p: "0 < p" using assms q by (simp add: x zero_less_divide_iff)
  define a where "a = bitlen p"
  define b where "b = bitlen q"
  have a1: "1 \<le> a" and b1: "1 \<le> b" using p q by (simp_all add: a_def b_def bitlen_alt_def)
  have bl: "(2::rat) powi (bitlen n - 1) \<le> of_int n \<and> of_int n < (2::rat) powi bitlen n"
    if "0 < n" for n
  proof -
    have n1: "1 \<le> bitlen n" using that by (simp add: bitlen_alt_def)
    from bitlen_bounds [OF that]
    have "(of_int (2 ^ nat (bitlen n - 1)) :: rat) \<le> of_int n"
      and "(of_int n :: rat) < of_int (2 ^ nat (bitlen n))"
      by (simp_all only: of_int_le_iff of_int_less_iff)
    then show ?thesis using n1 by (simp add: power_int_nonneg_exp)
  qed
  have pa: "(2::rat) powi (a - 1) \<le> of_int p" "of_int p < (2::rat) powi a"
    using bl [OF p] by (simp_all add: a_def)
  have qb: "(2::rat) powi (b - 1) \<le> of_int q" "of_int q < (2::rat) powi b"
    using bl [OF q] by (simp_all add: b_def)
  have qpos: "(0::rat) < of_int q" using q by simp
  have up: "x < 2 powi (a - b + 1)"
  proof -
    have "of_int p < (2::rat) powi (a - b + 1) * 2 powi (b - 1)"
      using pa(2) by (simp add: power_int_add [symmetric])
    also have "\<dots> \<le> 2 powi (a - b + 1) * of_int q"
      using qb(1) by (simp add: mult_left_mono)
    finally show ?thesis using qpos by (simp add: x pos_divide_less_eq)
  qed
  have lo: "2 powi (a - b - 1) \<le> x"
  proof -
    have "(2::rat) powi (a - b - 1) * of_int q \<le> 2 powi (a - b - 1) * 2 powi b"
      using qb(2) by (simp add: mult_left_mono)
    also have "\<dots> = 2 powi (a - 1)" by (simp add: power_int_add [symmetric])
    also have "\<dots> \<le> of_int p" by (rule pa(1))
    finally show ?thesis using qpos by (simp add: x pos_le_divide_eq)
  qed
  have il: "ilog2 x = (if 2 powi (a - b) \<le> x then a - b else a - b - 1)"
    by (simp add: ilog2_def pq a_def b_def Let_def)
  show "2 powi ilog2 x \<le> x" using lo by (simp add: il)
  show "x < 2 powi (ilog2 x + 1)" using up by (auto simp add: il not_le)
qed

lemma powi2_strict_mono: "a < b \<Longrightarrow> (2::rat) powi a < 2 powi b"
  by (rule power_int_strict_increasing) simp_all

lemma powi2_mono: "a \<le> b \<Longrightarrow> (2::rat) powi a \<le> 2 powi b"
  by (rule power_int_increasing) simp_all

lemma ilog2_unique:
  assumes "2 powi e \<le> x" and "x < 2 powi (e + 1)"
  shows "ilog2 x = e"
proof -
  have pos: "0 < x" using assms(1) by (rule less_le_trans [rotated]) simp
  note b = ilog2_bounds [OF pos]
  have "\<not> ilog2 x < e"
  proof
    assume "ilog2 x < e"
    then have "ilog2 x + 1 \<le> e" by simp
    then have "(2::rat) powi (ilog2 x + 1) \<le> 2 powi e" by (rule powi2_mono)
    with b(2) assms(1) show False by simp
  qed
  moreover have "\<not> e < ilog2 x"
  proof
    assume "e < ilog2 x"
    then have "e + 1 \<le> ilog2 x" by simp
    then have "(2::rat) powi (e + 1) \<le> 2 powi ilog2 x" by (rule powi2_mono)
    with b(1) assms(2) show False by simp
  qed
  ultimately show ?thesis by simp
qed

lemma ilog2_mono:
  assumes "0 < x" and "x \<le> y"
  shows "ilog2 x \<le> ilog2 y"
proof (rule ccontr)
  assume "\<not> ilog2 x \<le> ilog2 y"
  then have "ilog2 y + 1 \<le> ilog2 x" by simp
  then have "(2::rat) powi (ilog2 y + 1) \<le> 2 powi ilog2 x" by (rule powi2_mono)
  also have "\<dots> \<le> x" using assms(1) by (rule ilog2_bounds)
  finally have "2 powi (ilog2 y + 1) \<le> y" using assms(2) by simp
  moreover have "y < 2 powi (ilog2 y + 1)" using assms by (intro ilog2_bounds) simp
  ultimately show False by simp
qed

lemma powi2_shift: "(2::rat) powi (a + int n) = of_int (2 ^ n) * 2 powi a"
proof -
  have "(2::rat) powi (a + int n) = 2 powi a * 2 powi int n"
    by (rule power_int_add) simp
  then show ?thesis by simp
qed

lemma quantum_expo: "quantum x = 2 powi (expo x - 52)"
  by (simp add: quantum_def)

lemma quantum_pos: "0 < quantum x"
  by (simp add: quantum_def)

lemma expo_mono: "0 < x \<Longrightarrow> x \<le> y \<Longrightarrow> expo x \<le> expo y"
  using ilog2_mono [of x y] by (simp add: expo_def)

lemma expo_upper: "0 < x \<Longrightarrow> x < 2 powi (expo x + 1)"
proof -
  assume pos: "0 < x"
  have "x < 2 powi (ilog2 x + 1)" using pos by (rule ilog2_bounds)
  also have "\<dots> \<le> 2 powi (expo x + 1)" by (rule powi2_mono) (simp add: expo_def)
  finally show ?thesis .
qed

lemma expo_lower: "2 powi (- 1022) \<le> x \<Longrightarrow> 2 powi expo x \<le> x"
proof -
  assume n: "2 powi (- 1022) \<le> x"
  have pos: "0 < x" using n by (rule less_le_trans [rotated]) simp
  have "\<not> ilog2 x < - 1022"
  proof
    assume "ilog2 x < - 1022"
    then have "ilog2 x + 1 \<le> - 1022" by simp
    then have "(2::rat) powi (ilog2 x + 1) \<le> 2 powi (- 1022)" by (rule powi2_mono)
    moreover have "x < 2 powi (ilog2 x + 1)" using pos by (rule ilog2_bounds)
    ultimately show False using n by simp
  qed
  then have "expo x = ilog2 x" by (simp add: expo_def)
  then show ?thesis using ilog2_bounds(1) [OF pos] by simp
qed

lemma round_mag_err: "\<bar>round_mag x - x\<bar> \<le> quantum x / 2"
proof -
  have q: "0 < quantum x" by (rule quantum_pos)
  have "round_mag x - x = (of_int (rne (x / quantum x)) - x / quantum x) * quantum x"
    using q by (simp add: round_mag_def algebra_simps)
  then have "\<bar>round_mag x - x\<bar> = \<bar>of_int (rne (x / quantum x)) - x / quantum x\<bar> * quantum x"
    using q by (simp add: abs_mult)
  also have "\<dots> \<le> (1 / 2) * quantum x"
    using q rne_err [of "x / quantum x"] by (intro mult_right_mono) simp_all
  finally show ?thesis by simp
qed

lemma round_mag_nonneg: "0 \<le> x \<Longrightarrow> 0 \<le> round_mag x"
proof -
  assume "0 \<le> x"
  then have "0 \<le> x / quantum x" using quantum_pos [of x] by simp
  then have "rne 0 \<le> rne (x / quantum x)" by (rule rne_mono)
  then have "0 \<le> rne (x / quantum x)" using rne_of_int [of 0] by simp
  then show ?thesis using quantum_pos [of x] by (simp add: round_mag_def)
qed

lemma round_mag_upper: "0 < x \<Longrightarrow> round_mag x \<le> 2 powi (expo x + 1)"
proof -
  assume pos: "0 < x"
  have q: "0 < quantum x" by (rule quantum_pos)
  have e: "(2::rat) powi (expo x + 1) = of_int (2 ^ 53) * quantum x"
    using powi2_shift [of "expo x - 52" 53] by (simp add: quantum_expo add.commute)
  have "x / quantum x \<le> of_int (2 ^ 53)"
    using expo_upper [OF pos] q unfolding e by (simp add: pos_divide_le_eq)
  then have "rne (x / quantum x) \<le> rne (of_int (2 ^ 53))" by (rule rne_mono)
  then have "rne (x / quantum x) \<le> 2 ^ 53" unfolding rne_of_int .
  then have "(of_int (rne (x / quantum x)) :: rat) \<le> of_int (2 ^ 53)"
    by (simp only: of_int_le_iff)
  then show ?thesis unfolding e round_mag_def using q by (intro mult_right_mono) simp_all
qed

lemma round_mag_lower: "2 powi (- 1022) \<le> x \<Longrightarrow> 2 powi expo x \<le> round_mag x"
proof -
  assume n: "2 powi (- 1022) \<le> x"
  have q: "0 < quantum x" by (rule quantum_pos)
  have e: "(2::rat) powi expo x = of_int (2 ^ 52) * quantum x"
    using powi2_shift [of "expo x - 52" 52] by (simp add: quantum_expo)
  have "of_int (2 ^ 52) \<le> x / quantum x"
    using expo_lower [OF n] q unfolding e by (simp add: pos_le_divide_eq)
  then have "rne (of_int (2 ^ 52)) \<le> rne (x / quantum x)" by (rule rne_mono)
  then have "2 ^ 52 \<le> rne (x / quantum x)" unfolding rne_of_int .
  then have "(of_int (2 ^ 52) :: rat) \<le> of_int (rne (x / quantum x))"
    by (simp only: of_int_le_iff)
  then show ?thesis unfolding e round_mag_def using q by (intro mult_right_mono) simp_all
qed

lemma round_mag_mono:
  assumes "0 < x" and "x \<le> y"
  shows "round_mag x \<le> round_mag y"
proof -
  have ypos: "0 < y" using assms by simp
  have "expo x \<le> expo y" using assms by (rule expo_mono)
  then consider "expo x = expo y" | "expo x + 1 \<le> expo y" by linarith
  then show ?thesis
  proof cases
    case 1
    then have qq: "quantum y = quantum x" by (simp add: quantum_expo)
    have "x / quantum x \<le> y / quantum x"
      using assms(2) quantum_pos [of x] by (simp add: divide_right_mono)
    then have "rne (x / quantum x) \<le> rne (y / quantum x)" by (rule rne_mono)
    then have "(of_int (rne (x / quantum x)) :: rat) \<le> of_int (rne (y / quantum x))"
      by (simp only: of_int_le_iff)
    then show ?thesis unfolding round_mag_def qq
      using quantum_pos [of x] by (intro mult_right_mono) simp_all
  next
    case 2
    then have "- 1022 < expo y" by (simp add: expo_def)
    then have il: "expo y = ilog2 y" by (simp add: expo_def max_def split: if_splits)
    have "(2::rat) powi (- 1022) \<le> 2 powi ilog2 y"
      using \<open>- 1022 < expo y\<close> il by (intro powi2_mono) simp
    also have "\<dots> \<le> y" using ypos by (rule ilog2_bounds)
    finally have ny: "2 powi (- 1022) \<le> y" .
    have "round_mag x \<le> 2 powi (expo x + 1)" using assms(1) by (rule round_mag_upper)
    also have "\<dots> \<le> 2 powi expo y" using 2 by (rule powi2_mono)
    also have "\<dots> \<le> round_mag y" using ny by (rule round_mag_lower)
    finally show ?thesis .
  qed
qed

lemma fl_zero: "fl 0 = Fin 0"
  by (simp add: fl_def)

lemma fl_pos_cases: "0 \<le> x \<Longrightarrow> fl x = PInf \<or> (\<exists>y. fl x = Fin y \<and> 0 \<le> y)"
  using round_mag_nonneg [of x] by (auto simp: fl_def Let_def)

lemma fl_neg_cases: "x \<le> 0 \<Longrightarrow> fl x = NInf \<or> (\<exists>y. fl x = Fin y \<and> y \<le> 0)"
  using round_mag_nonneg [of "- x"] by (auto simp: fl_def Let_def)

lemma fl_not_NaN: "fl x \<noteq> NaN"
  by (simp add: fl_def Let_def)

lemma fl_mono: "x \<le> y \<Longrightarrow> fle (fl x) (fl y)"
proof -
  assume xy: "x \<le> y"
  consider "0 < x" | "y < 0" | "x \<le> 0" "0 \<le> y" by linarith
  then show ?thesis
  proof cases
    case 1
    then have "round_mag x \<le> round_mag y" using xy by (rule round_mag_mono)
    with 1 xy show ?thesis by (auto simp: fl_def Let_def)
  next
    case 2
    then have "round_mag (- y) \<le> round_mag (- x)" using xy by (intro round_mag_mono) simp_all
    with 2 xy show ?thesis by (auto simp: fl_def Let_def)
  next
    case 3
    from fl_neg_cases [OF 3(1)] fl_pos_cases [OF 3(2)] show ?thesis by auto
  qed
qed

lemma powi2_less_cancel: "(2::rat) powi a < 2 powi b \<Longrightarrow> a < b"
proof (rule ccontr)
  assume l: "(2::rat) powi a < 2 powi b" and "\<not> a < b"
  then have "b \<le> a" by simp
  then have "(2::rat) powi b \<le> 2 powi a" by (rule powi2_mono)
  with l show False by simp
qed

lemma round_mag_rel:
  assumes n: "2 powi (- 1022) \<le> x" and b: "x < 2 powi 1023"
  shows "round_mag x < 2 ^ 1024" and "\<bar>round_mag x - x\<bar> \<le> x / 2 ^ 53"
proof -
  have pos: "0 < x" using n by (rule less_le_trans [rotated]) simp
  have "2 powi expo x \<le> x" using n by (rule expo_lower)
  also note b
  finally have "expo x < 1023" by (rule powi2_less_cancel)
  then have "expo x + 1 \<le> 1023" by simp
  then have "(2::rat) powi (expo x + 1) \<le> 2 powi 1023" by (rule powi2_mono)
  with round_mag_upper [OF pos] have "round_mag x \<le> 2 powi 1023" by simp
  also have "(2::rat) powi 1023 < 2 ^ 1024" by simp
  finally show "round_mag x < 2 ^ 1024" .
  have "quantum x = 2 powi expo x / 2 ^ 52"
    using powi2_shift [of "expo x - 52" 52] by (simp add: quantum_expo)
  then have "quantum x / 2 = 2 powi expo x / 2 ^ 53" by simp
  also have "\<dots> \<le> x / 2 ^ 53" using expo_lower [OF n] by (simp add: divide_right_mono)
  finally show "\<bar>round_mag x - x\<bar> \<le> x / 2 ^ 53"
    using round_mag_err [of x] by simp
qed

lemma fl_rel:
  assumes "x = 0 \<or> (2 powi (- 1022) \<le> \<bar>x\<bar> \<and> \<bar>x\<bar> < 2 powi 1023)"
  shows "\<exists>y. fl x = Fin y \<and> \<bar>y - x\<bar> \<le> \<bar>x\<bar> / 2 ^ 53"
proof -
  consider "x = 0" | "0 < x" "2 powi (- 1022) \<le> x" "x < 2 powi 1023"
    | "x < 0" "2 powi (- 1022) \<le> - x" "- x < 2 powi 1023"
    using assms by (cases "0 < x") auto
  then show ?thesis
  proof cases
    case 1
    then show ?thesis by (simp add: fl_def)
  next
    case 2
    from round_mag_rel [OF 2(2) 2(3)] 2(1) show ?thesis by (simp add: fl_def Let_def)
  next
    case 3
    from round_mag_rel [OF 3(2) 3(3)] 3(1) show ?thesis
      by (simp add: fl_def Let_def abs_minus_commute [of "- round_mag (- x)" x])
  qed
qed

lemma normal_range:
  assumes "1 / 2 ^ 900 \<le> \<bar>x::rat\<bar>" and "\<bar>x\<bar> \<le> 2 ^ 900"
  shows "2 powi (- 1022) \<le> \<bar>x\<bar> \<and> \<bar>x\<bar> < 2 powi 1023"
proof -
  have "(2::rat) powi (- 1022) \<le> 2 powi (- 900)" by (rule powi2_mono) simp
  also have "\<dots> = 1 / 2 ^ 900" by (simp add: power_int_minus_divide)
  finally have a: "(2::rat) powi (- 1022) \<le> \<bar>x\<bar>" using assms(1) by simp
  have "(2::rat) ^ 900 = 2 powi 900" by simp
  also have "\<dots> < 2 powi 1023" by (rule powi2_strict_mono) simp
  finally have "\<bar>x\<bar> < 2 powi 1023" using assms(2) by simp
  with a show ?thesis by simp
qed

lemma div100_bound:
  assumes "moderate r"
  shows "\<exists>d. div100 (Fin r) = Fin d \<and> \<bar>d - r / 100\<bar> \<le> \<bar>r / 100\<bar> / 2 ^ 53
           \<and> (r = 0 \<longrightarrow> d = 0)
           \<and> (r \<noteq> 0 \<longrightarrow> 1 / 2 ^ 408 \<le> \<bar>d\<bar> \<and> \<bar>d\<bar> \<le> 2 ^ 395)"
proof (cases "r = 0")
  case True
  then show ?thesis by (simp add: div100_def fl_zero)
next
  case False
  with assms have r: "1 / 2 ^ 400 \<le> \<bar>r\<bar>" "\<bar>r\<bar> \<le> 2 ^ 400" by (simp_all add: moderate_def)
  have lo: "1 / 2 ^ 407 \<le> \<bar>r / 100\<bar>" using r(1) by simp
  have "\<bar>r / 100\<bar> = \<bar>r\<bar> / 100" by simp
  also have "\<dots> \<le> 2 ^ 400 / 100" using r(2) by (simp add: divide_right_mono)
  also have "\<dots> \<le> 2 ^ 394" by simp
  finally have hi: "\<bar>r / 100\<bar> \<le> 2 ^ 394" .
  have "2 powi (- 1022) \<le> \<bar>r / 100\<bar> \<and> \<bar>r / 100\<bar> < 2 powi 1023"
    using lo hi by (intro normal_range) simp_all
  then obtain d where d: "fl (r / 100) = Fin d" "\<bar>d - r / 100\<bar> \<le> \<bar>r / 100\<bar> / 2 ^ 53"
    using fl_rel [of "r / 100"] by blast
  have "\<bar>r / 100\<bar> / 2 ^ 53 \<le> \<bar>r / 100\<bar> / 2" by (simp add: field_simps)
  with d(2) have dd: "\<bar>d - r / 100\<bar> \<le> \<bar>r / 100\<bar> / 2" by simp
  have "\<bar>r / 100\<bar> / 2 \<le> \<bar>d\<bar>" using dd by linarith
  with lo have l2: "1 / 2 ^ 408 \<le> \<bar>d\<bar>" by simp
  have "\<bar>d\<bar> \<le> \<bar>r / 100\<bar> + \<bar>r / 100\<bar> / 2 ^ 53" using d(2) by linarith
  also have "\<dots> \<le> \<bar>r / 100\<bar> + \<bar>r / 100\<bar>" by (simp add: field_simps)
  also have "\<dots> \<le> 2 ^ 394 + 2 ^ 394" using hi by (intro add_mono)
  finally have h2: "\<bar>d\<bar> \<le> 2 ^ 395" by simp
  show ?thesis using d l2 h2 False by (simp add: div100_def)
qed

lemma cost_bound:
  assumes p: "moderate p" and r: "moderate r"
  shows "\<exists>h. fmul (Fin p) (div100 (Fin r)) = Fin h
           \<and> \<bar>h - p * r / 100\<bar> \<le> \<bar>p * r / 100\<bar> / 2 ^ 51"
proof -
  from div100_bound [OF r] obtain d where
    d: "div100 (Fin r) = Fin d" "\<bar>d - r / 100\<bar> \<le> \<bar>r / 100\<bar> / 2 ^ 53"
    and d0: "r = 0 \<longrightarrow> d = 0"
    and dn: "r \<noteq> 0 \<longrightarrow> 1 / 2 ^ 408 \<le> \<bar>d\<bar> \<and> \<bar>d\<bar> \<le> 2 ^ 395"
    by blast
  have rng: "p * d = 0 \<or> (2 powi (- 1022) \<le> \<bar>p * d\<bar> \<and> \<bar>p * d\<bar> < 2 powi 1023)"
  proof (cases "p = 0 \<or> r = 0")
    case True
    with d0 show ?thesis by auto
  next
    case False
    with p have pb: "1 / 2 ^ 400 \<le> \<bar>p\<bar>" "\<bar>p\<bar> \<le> 2 ^ 400" by (simp_all add: moderate_def)
    from False dn have db: "1 / 2 ^ 408 \<le> \<bar>d\<bar>" "\<bar>d\<bar> \<le> 2 ^ 395" by simp_all
    have "(1 / 2 ^ 400) * (1 / 2 ^ 408) \<le> \<bar>p\<bar> * \<bar>d\<bar>"
      using pb(1) db(1) by (intro mult_mono) simp_all
    then have lo: "1 / 2 ^ 900 \<le> \<bar>p * d\<bar>" by (simp add: abs_mult)
    have "\<bar>p\<bar> * \<bar>d\<bar> \<le> 2 ^ 400 * 2 ^ 395"
      using pb(2) db(2) by (intro mult_mono) simp_all
    then have hi: "\<bar>p * d\<bar> \<le> 2 ^ 900" by (simp add: abs_mult)
    from normal_range [OF lo hi] show ?thesis by simp
  qed
  from fl_rel [OF rng] obtain h where
    h: "fl (p * d) = Fin h" "\<bar>h - p * d\<bar> \<le> \<bar>p * d\<bar> / 2 ^ 53"
    by blast
  define E where "E = \<bar>r / 100\<bar>"
  define A where "A = \<bar>p\<bar>"
  have A0: "0 \<le> A" and E0: "0 \<le> E" by (simp_all add: A_def E_def)
  have dE: "\<bar>d\<bar> \<le> 2 * E"
  proof -
    have "\<bar>d\<bar> \<le> E + E / 2 ^ 53" using d(2) unfolding E_def by linarith
    also have "E / 2 ^ 53 \<le> E" using E0 by (simp add: field_simps)
    finally show ?thesis by simp
  qed
  have "\<bar>p * d\<bar> = A * \<bar>d\<bar>" by (simp add: abs_mult A_def)
  also have "\<dots> \<le> A * (2 * E)" using dE A0 by (rule mult_left_mono)
  finally have t1: "\<bar>h - p * d\<bar> \<le> 2 * (A * E) / 2 ^ 53"
    using h(2) by (simp add: field_simps)
  have "\<bar>p * d - p * r / 100\<bar> = A * \<bar>d - r / 100\<bar>"
    by (simp add: abs_mult [symmetric] A_def algebra_simps)
  also have "\<dots> \<le> A * (E / 2 ^ 53)" using d(2) A0 unfolding E_def by (rule mult_left_mono)
  finally have t2: "\<bar>p * d - p * r / 100\<bar> \<le> (A * E) / 2 ^ 53" by simp
  have AE: "\<bar>p * r / 100\<bar> = A * E" by (simp add: A_def E_def abs_mult)
  have "\<bar>h - p * r / 100\<bar> \<le> \<bar>h - p * d\<bar> + \<bar>p * d - p * r / 100\<bar>" by linarith
  also have "\<dots> \<le> 2 * (A * E) / 2 ^ 53 + (A * E) / 2 ^ 53" using t1 t2 by (rule add_mono)
  also have "\<dots> \<le> (A * E) / 2 ^ 51"
  proof -
    have "0 \<le> A * E" using A0 E0 by simp
    then show ?thesis by (simp add: field_simps)
  qed
  finally have fin: "\<bar>h - p * r / 100\<bar> \<le> (A * E) / 2 ^ 51" .
  have "fmul (Fin p) (div100 (Fin r)) = Fin h" using h(1) d(1) by simp
  moreover have "\<bar>h - p * r / 100\<bar> \<le> \<bar>p * r / 100\<bar> / 2 ^ 51"
    using fin by (simp only: AE)
  ultimately show ?thesis by blast
qed

lemma fle_PInf: "x \<noteq> NaN \<Longrightarrow> fle x PInf"
  by (cases x) simp_all

lemma fle_NInf: "x \<noteq> NaN \<Longrightarrow> fle NInf x"
  by (cases x) simp_all

lemma fmul_mono:
  assumes "0 \<le> p" and "fle a b"
  shows "fmul (Fin p) a = NaN \<or> fmul (Fin p) b = NaN \<or> fle (fmul (Fin p) a) (fmul (Fin p) b)"
proof (cases a)
  case (Fin x)
  show ?thesis
  proof (cases b)
    case (Fin y)
    with \<open>a = Fin x\<close> assms have "p * x \<le> p * y" by (simp add: mult_left_mono)
    then have "fle (fl (p * x)) (fl (p * y))" by (rule fl_mono)
    with Fin \<open>a = Fin x\<close> show ?thesis by simp
  next
    case PInf
    with Fin assms(1) show ?thesis by (auto simp add: fle_PInf fl_not_NaN)
  qed (use assms Fin in simp_all)
next
  case NInf
  show ?thesis
  proof (cases b)
    case (Fin y)
    with NInf assms(1) show ?thesis by (auto simp add: fle_NInf fl_not_NaN)
  qed (use assms NInf in auto)
next
  case PInf
  with assms show ?thesis by (cases b) auto
qed (use assms in simp_all)

lemma div100_mono: "r \<le> r' \<Longrightarrow> fle (div100 (Fin r)) (div100 (Fin r'))"
  by (simp add: div100_def fl_mono divide_right_mono)

lemma fsub_nonneg: "fle h c \<Longrightarrow> fsub c h = NaN \<or> fle (Fin 0) (fsub c h)"
proof (cases c; cases h)
  fix x y assume "fle h c" "c = Fin x" "h = Fin y"
  then have "0 \<le> x - y" by simp
  then have "fle (fl 0) (fl (x - y))" by (rule fl_mono)
  then show "fsub c h = NaN \<or> fle (Fin 0) (fsub c h)"
    using \<open>c = Fin x\<close> \<open>h = Fin y\<close> by (simp add: fl_zero)
qed simp_all

lemma fsub_nonpos: "fle c h \<Longrightarrow> fsub c h = NaN \<or> fle (fsub c h) (Fin 0)"
proof (cases c; cases h)
  fix x y assume "fle c h" "c = Fin x" "h = Fin y"
  then have "x - y \<le> 0" by simp
  then have "fle (fl (x - y)) (fl 0)" by (rule fl_mono)
  then show "fsub c h = NaN \<or> fle (fsub c h) (Fin 0)"
    using \<open>c = Fin x\<close> \<open>h = Fin y\<close> by (simp add: fl_zero)
qed simp_all

lemma not_flt_neg: "z = NaN \<or> fle (Fin 0) z \<Longrightarrow> \<not> flt z (Fin 0)"
  by (cases z) auto

lemma not_flt_pos: "z = NaN \<or> fle z (Fin 0) \<Longrightarrow> \<not> flt (Fin 0) z"
  by (cases z) auto

lemma additional_not_negative:
  assumes "0 \<le> p" and "rh \<le> rc"
  shows "\<not> flt (additional_cost (Fin p) (Fin rh) (Fin rc)) (Fin 0)"
proof -
  let ?h = "fmul (Fin p) (div100 (Fin rh))" and ?c = "fmul (Fin p) (div100 (Fin rc))"
  from fmul_mono [OF assms(1) div100_mono [OF assms(2)]]
  consider "?h = NaN" | "?c = NaN" | "fle ?h ?c" by blast
  then have "fsub ?c ?h = NaN \<or> fle (Fin 0) (fsub ?c ?h)"
  proof cases
    case 1 then show ?thesis by (cases ?c) simp_all
  next
    case 2 then show ?thesis by simp
  next
    case 3 then show ?thesis by (rule fsub_nonneg)
  qed
  then show ?thesis
    unfolding additional_cost_def current_interest_cost_def historical_interest_cost_def
    by (rule not_flt_neg)
qed

lemma additional_not_positive:
  assumes "0 \<le> p" and "rc \<le> rh"
  shows "\<not> flt (Fin 0) (additional_cost (Fin p) (Fin rh) (Fin rc))"
proof -
  let ?h = "fmul (Fin p) (div100 (Fin rh))" and ?c = "fmul (Fin p) (div100 (Fin rc))"
  from fmul_mono [OF assms(1) div100_mono [OF assms(2)]]
  consider "?h = NaN" | "?c = NaN" | "fle ?c ?h" by blast
  then have "fsub ?c ?h = NaN \<or> fle (fsub ?c ?h) (Fin 0)"
  proof cases
    case 1 then show ?thesis by (cases ?c) simp_all
  next
    case 2 then show ?thesis by simp
  next
    case 3 then show ?thesis by (rule fsub_nonpos)
  qed
  then show ?thesis
    unfolding additional_cost_def current_interest_cost_def historical_interest_cost_def
    by (rule not_flt_pos)
qed

lemma additional_positive:
  assumes p: "0 < p" "moderate p" and rh: "moderate rh" and rc: "moderate rc"
    and sep: "(\<bar>rh\<bar> + \<bar>rc\<bar>) / 2 ^ 49 \<le> rc - rh" and ne: "rh \<noteq> rc"
  shows "\<exists>a. additional_cost (Fin p) (Fin rh) (Fin rc) = Fin a \<and> 0 < a"
proof -
  from cost_bound [OF p(2) rh] obtain h where
    h: "fmul (Fin p) (div100 (Fin rh)) = Fin h" "\<bar>h - p * rh / 100\<bar> \<le> \<bar>p * rh / 100\<bar> / 2 ^ 51"
    by blast
  from cost_bound [OF p(2) rc] obtain c where
    c: "fmul (Fin p) (div100 (Fin rc)) = Fin c" "\<bar>c - p * rc / 100\<bar> \<le> \<bar>p * rc / 100\<bar> / 2 ^ 51"
    by blast
  define P where "P = p / 100"
  define S where "S = \<bar>rh\<bar> + \<bar>rc\<bar>"
  have P0: "0 < P" using p(1) by (simp add: P_def)
  have Pl: "1 / 2 ^ 407 \<le> P" and Pu: "P \<le> 2 ^ 400"
    using p by (simp_all add: P_def moderate_def)
  have Sl: "1 / 2 ^ 400 \<le> S"
  proof -
    from ne have "rh \<noteq> 0 \<or> rc \<noteq> 0" by auto
    then show ?thesis using rh rc unfolding S_def moderate_def by (elim disjE) linarith+
  qed
  have Su: "S \<le> 2 ^ 401" using rh rc unfolding S_def moderate_def by auto
  have ah: "\<bar>P * rh\<bar> = P * \<bar>rh\<bar>" and ac: "\<bar>P * rc\<bar> = P * \<bar>rc\<bar>"
    using P0 by (simp_all add: abs_mult)
  have eh: "p * rh / 100 = P * rh" and ec: "p * rc / 100 = P * rc" by (simp_all add: P_def)
  have PS: "P * S = P * \<bar>rh\<bar> + P * \<bar>rc\<bar>" by (simp add: S_def algebra_simps)
  have "P * (S / 2 ^ 49) \<le> P * (rc - rh)"
    using sep P0 unfolding S_def by (intro mult_left_mono) simp_all
  then have sepP: "P * S / 2 ^ 49 \<le> P * rc - P * rh" by (simp add: algebra_simps)
  have hb: "\<bar>h - P * rh\<bar> \<le> P * \<bar>rh\<bar> / 2 ^ 51" using h(2) unfolding eh ah .
  have cb: "\<bar>c - P * rc\<bar> \<le> P * \<bar>rc\<bar> / 2 ^ 51" using c(2) unfolding ec ac .
  have PS0: "0 \<le> P * \<bar>rh\<bar>" "0 \<le> P * \<bar>rc\<bar>" using P0 by simp_all
  define u where "u = P * rc"
  define v where "v = P * rh"
  define e1 where "e1 = P * \<bar>rh\<bar> / 2 ^ 51"
  define e2 where "e2 = P * \<bar>rc\<bar> / 2 ^ 51"
  have e0: "0 \<le> e1" "0 \<le> e2" using PS0 by (simp_all add: e1_def e2_def)
  have hv: "v - e1 \<le> h" "h \<le> v + e1"
    using hb unfolding abs_diff_le_iff v_def e1_def by blast+
  have cu: "u - e2 \<le> c" "c \<le> u + e2"
    using cb unfolding abs_diff_le_iff u_def e2_def by blast+
  have s51: "P * S / 2 ^ 51 = e1 + e2" by (simp add: PS e1_def e2_def add_divide_distrib)
  have "P * S / 2 ^ 49 = 4 * (P * S / 2 ^ 51)" by simp
  then have sp: "4 * e1 + 4 * e2 \<le> u - v" using sepP unfolding s51 u_def v_def by simp
  have "P * S / 2 ^ 50 = 2 * (P * S / 2 ^ 51)" by simp
  also have "\<dots> = 2 * e1 + 2 * e2" unfolding s51 by simp
  also have "\<dots> \<le> c - h" using hv cu sp e0 by linarith
  finally have low: "P * S / 2 ^ 50 \<le> c - h" .
  have uv: "\<bar>u\<bar> + \<bar>v\<bar> = P * S" by (simp add: u_def v_def ah ac PS)
  have "c - h \<le> \<bar>u\<bar> + \<bar>v\<bar> + (e1 + e2)" using hv cu by linarith
  then have upp: "c - h \<le> P * S + P * S / 2 ^ 51" unfolding uv s51 .
  have "(1 / 2 ^ 407) * (1 / 2 ^ 400) \<le> P * S" using Pl Sl by (intro mult_mono) simp_all
  then have "1 / 2 ^ 857 \<le> P * S / 2 ^ 50" by (simp add: field_simps)
  with low have xl: "1 / 2 ^ 900 \<le> c - h" by simp
  have S0: "0 \<le> S" by (simp add: S_def)
  have "P * S \<le> 2 ^ 400 * 2 ^ 401" using Pu Su P0 S0 by (intro mult_mono) simp_all
  then have PSu: "P * S \<le> 2 ^ 801" by simp
  have "c - h \<le> P * S + P * S / 2 ^ 51" by (rule upp)
  also have "\<dots> \<le> P * S + P * S"
  proof -
    have "0 \<le> P * S" using P0 S0 by simp
    then show ?thesis by (simp add: field_simps)
  qed
  also have "\<dots> \<le> 2 ^ 801 + 2 ^ 801" using PSu PSu by (rule add_mono)
  finally have xu: "c - h \<le> 2 ^ 900" by simp
  have xpos: "0 < c - h" using xl by (rule less_le_trans [rotated]) simp
  have "2 powi (- 1022) \<le> \<bar>c - h\<bar> \<and> \<bar>c - h\<bar> < 2 powi 1023"
    using xl xu xpos by (intro normal_range) simp_all
  then obtain a where a: "fl (c - h) = Fin a" "\<bar>a - (c - h)\<bar> \<le> \<bar>c - h\<bar> / 2 ^ 53"
    using fl_rel [of "c - h"] by blast
  have "\<bar>c - h\<bar> / 2 ^ 53 < c - h" using xpos by (simp add: field_simps)
  with a(2) have "0 < a" by linarith
  moreover have "additional_cost (Fin p) (Fin rh) (Fin rc) = Fin a"
    by (simp add: additional_cost_def current_interest_cost_def historical_interest_cost_def h c a)
  ultimately show ?thesis by blast
qed

lemma fl_minus_Fin: "fl x = Fin a \<Longrightarrow> fl (- x) = Fin (- a)"
  by (auto simp: fl_def Let_def split: if_splits)

lemma additional_negative:
  assumes p: "0 < p" "moderate p" and rh: "moderate rh" and rc: "moderate rc"
    and sep: "(\<bar>rh\<bar> + \<bar>rc\<bar>) / 2 ^ 49 \<le> rh - rc" and ne: "rh \<noteq> rc"
  shows "\<exists>a. additional_cost (Fin p) (Fin rh) (Fin rc) = Fin a \<and> a < 0"
proof -
  from cost_bound [OF p(2) rh] obtain h where h: "fmul (Fin p) (div100 (Fin rh)) = Fin h" by blast
  from cost_bound [OF p(2) rc] obtain c where c: "fmul (Fin p) (div100 (Fin rc)) = Fin c" by blast
  have "(\<bar>rc\<bar> + \<bar>rh\<bar>) / 2 ^ 49 \<le> rh - rc" using sep by (simp add: add.commute)
  from additional_positive [OF p rc rh this] ne
  obtain a where a: "additional_cost (Fin p) (Fin rc) (Fin rh) = Fin a" "0 < a" by auto
  then have "fl (h - c) = Fin a"
    by (simp add: additional_cost_def current_interest_cost_def historical_interest_cost_def h c)
  then have "fl (- (h - c)) = Fin (- a)" by (rule fl_minus_Fin)
  then have "additional_cost (Fin p) (Fin rh) (Fin rc) = Fin (- a)"
    by (simp add: additional_cost_def current_interest_cost_def historical_interest_cost_def h c)
  with a(2) show ?thesis by simp
qed

lemma additional_zero:
  assumes "moderate p" and "moderate r"
  shows "additional_cost (Fin p) (Fin r) (Fin r) = Fin 0"
proof -
  from cost_bound [OF assms] obtain h where "fmul (Fin p) (div100 (Fin r)) = Fin h" by blast
  then show ?thesis
    by (simp add: additional_cost_def current_interest_cost_def historical_interest_cost_def fl_zero)
qed

lemma fl_normal:
  assumes "- 1022 \<le> e" and "2 powi e \<le> x" and "x < 2 powi (e + 1)"
  shows "fl x = (let q = 2 powi (e - 52); y = of_int (rne (x / q)) * q
                 in if y < 2 ^ 1024 then Fin y else PInf)"
proof -
  have pos: "0 < x" using assms(2) by (rule less_le_trans [rotated]) simp
  have "ilog2 x = e" using assms(2,3) by (rule ilog2_unique)
  then have "quantum x = 2 powi (e - 52)" using assms(1) by (simp add: quantum_def expo_def)
  then show ?thesis using pos by (simp add: fl_def round_mag_def Let_def)
qed

lemma rne_nearest:
  assumes "\<bar>x - of_int n\<bar> < 1 / 2"
  shows "rne x = n"
proof -
  from assms have up: "x - of_int n < 1 / 2" and lo: "- (x - of_int n) < 1 / 2"
    unfolding abs_less_iff by blast+
  consider "of_int n \<le> x" | "x < of_int n" by linarith
  then show ?thesis
  proof cases
    case 1
    moreover have "x < of_int n + 1" using up by linarith
    ultimately have "\<lfloor>x\<rfloor> = n" by (rule floor_unique)
    with up show ?thesis by (simp add: rne_def Let_def)
  next
    case 2
    have "of_int (n - 1) \<le> x" using lo by simp
    moreover have "x < of_int (n - 1) + 1" using 2 by simp
    ultimately have f: "\<lfloor>x\<rfloor> = n - 1" by (rule floor_unique)
    have "1 / 2 < x - of_int (n - 1)" using lo by simp
    with f show ?thesis by (simp add: rne_def Let_def)
  qed
qed

lemma fl_nearest:
  assumes "- 1022 \<le> e" and "2 powi e \<le> x" and "x < 2 powi (e + 1)"
    and "y = of_int n * 2 powi (e - 52)"
    and "\<bar>x - y\<bar> < 2 powi (e - 52) / 2" and "y < 2 ^ 1024"
  shows "fl x = Fin y"
proof -
  define q :: rat where "q = 2 powi (e - 52)"
  note assms(4,5) [folded q_def]
  have q: "0 < q" by (simp add: q_def)
  have "x / q - of_int n = (x - y) / q" using q by (simp add: assms(4) q_def [symmetric] field_simps)
  then have "\<bar>x / q - of_int n\<bar> = \<bar>x - y\<bar> / q" using q by simp
  also have "\<dots> < 1 / 2" using assms(5) q by (simp add: q_def [symmetric] field_simps)
  finally have "rne (x / q) = n" by (rule rne_nearest)
  then show ?thesis
    using fl_normal [OF assms(1-3)] assms(4,6) by (simp add: Let_def q_def)
qed

section \<open>Facts about the resolvers\<close>

lemma dropna_no_NaN: "(d, v) \<in> set (dropna data) \<Longrightarrow> v \<noteq> NaN"
  by (auto simp: dropna_def)

lemma dropna_subset: "set (dropna data) \<subseteq> set data"
  by (auto simp: dropna_def)

lemma dropna_empty_iff: "dropna data = [] \<longleftrightarrow> (\<forall>(d, v) \<in> set data. v = NaN)"
  by (auto simp: dropna_def filter_empty_conv)

lemma dropna_last:
  assumes "dropna data \<noteq> []"
  shows "last (dropna data) \<in> set data" and "snd (last (dropna data)) \<noteq> NaN"
proof -
  have l: "last (dropna data) \<in> set (dropna data)" using assms by (rule last_in_set)
  then show "last (dropna data) \<in> set data" using dropna_subset by blast
  from l show "snd (last (dropna data)) \<noteq> NaN"
    using dropna_no_NaN [of "fst (last (dropna data))" "snd (last (dropna data))" data] by simp
qed

lemma sorted_le_last: "sorted (xs :: int list) \<Longrightarrow> x \<in> set xs \<Longrightarrow> x \<le> last xs"
proof (induction xs)
  case Nil
  then show ?case by simp
next
  case (Cons a xs)
  show ?case
  proof (cases "xs = []")
    case True
    with Cons.prems show ?thesis by simp
  next
    case False
    then have "last xs \<in> set xs" by (rule last_in_set)
    with Cons False show ?thesis by auto
  qed
qed

lemma dropna_last_latest:
  assumes "chronological data" and "(d, v) \<in> set data" and "v \<noteq> NaN"
  shows "d \<le> fst (last (dropna data))"
proof -
  have mem: "(d, v) \<in> set (dropna data)" using assms(2,3) by (simp add: dropna_def)
  then have ne: "dropna data \<noteq> []" by auto
  have "sorted (map fst (dropna data))"
    using assms(1) unfolding chronological_def dropna_def by (rule sorted_filter)
  moreover have "d \<in> set (map fst (dropna data))" using mem by force
  ultimately have "d \<le> last (map fst (dropna data))" by (rule sorted_le_last)
  then show ?thesis using ne by (simp add: last_map)
qed

lemma get_fred_rate_Inr:
  assumes "fred_client series_id (Some (date - 7)) (Some date) = Inr data"
  shows "get_fred_rate fred_client series_id date =
           (if dropna data \<noteq> []
            then (Some (snd (last (dropna data))), Some (fst (last (dropna data))))
            else (None, None),
            [RemoteCall series_id (Some (date - 7)) (Some date)])"
  using assms by (simp add: get_fred_rate_def Let_def)

lemma get_fred_rate_Inl:
  assumes "fred_client series_id (Some (date - 7)) (Some date) = Inl e"
  shows "get_fred_rate fred_client series_id date =
           ((None, None),
            [RemoteCall series_id (Some (date - 7)) (Some date),
             StError (''Error fetching historical FRED data for '' @ series_id @ '': '' @ e)])"
  using assms by (simp add: get_fred_rate_def Let_def)

lemma get_current_fred_rate_Inr:
  assumes "fred_client series_id None None = Inr data"
  shows "get_current_fred_rate fred_client series_id =
           (if dropna data \<noteq> []
            then (Some (snd (last (dropna data))), Some (fst (last (dropna data))))
            else (None, None),
            [RemoteCall series_id None None])"
  using assms by (simp add: get_current_fred_rate_def Let_def)

lemma get_current_fred_rate_Inl:
  assumes "fred_client series_id None None = Inl e"
  shows "get_current_fred_rate fred_client series_id =
           ((None, None),
            [RemoteCall series_id None None,
             StError (''Error fetching current FRED data for '' @ series_id @ '': '' @ e)])"
  using assms by (simp add: get_current_fred_rate_def Let_def)

lemma serving_honours_range: "honours_range (serving db)"
  by (auto simp: honours_range_def serving_def split: sum.splits)

lemma example_window:
  "example_fred ''DGS10'' (Some (HISTORICAL_DATE - 7)) (Some HISTORICAL_DATE) =
     Inr [(739339, Fin (17 / 4)), (739340, NaN), (739341, Fin (33 / 8)),
          (739342, Fin (4728779608739021 / 1125899906842624))]"
  by (simp add: example_fred_def serving_def example_history_def in_range_def HISTORICAL_DATE_def)

lemma example_all:
  "example_fred ''DGS10'' None None =
     Inr [(739339, Fin (17 / 4)), (739340, NaN), (739341, Fin (33 / 8)),
          (739342, Fin (4728779608739021 / 1125899906842624)), (739343, Fin (9 / 2))]"
  by (simp add: example_fred_def serving_def example_history_def in_range_def)

lemma example_historical:
  "get_fred_rate example_fred ''DGS10'' HISTORICAL_DATE =
     ((Some (Fin (4728779608739021 / 1125899906842624)), Some 739342),
      [RemoteCall ''DGS10'' (Some 739335) (Some 739342)])"
  by (simp add: get_fred_rate_Inr [of example_fred "''DGS10''" HISTORICAL_DATE, OF example_window]
        dropna_def)
     (simp add: HISTORICAL_DATE_def)

lemma example_current:
  "get_current_fred_rate example_fred ''DGS10'' =
     ((Some (Fin (9 / 2)), Some 739343), [RemoteCall ''DGS10'' None None])"
  by (simp add: get_current_fred_rate_Inr [of example_fred "''DGS10''", OF example_all] dropna_def)

lemma fl_overflow:
  assumes "2 ^ 1024 \<le> x"
  shows "fl x = PInf"
proof -
  have big: "(2::rat) powi 1024 \<le> x" using assms by simp
  have "(2::rat) powi (- 1022) \<le> 2 powi 1024" by (rule powi2_mono) simp
  then have n: "2 powi (- 1022) \<le> x" using big by (rule order_trans)
  have pos: "0 < x" using n by (rule less_le_trans [rotated]) simp
  have "(2::rat) powi 1024 < 2 powi (1024 + 1)" by (rule powi2_strict_mono) simp
  then have "ilog2 ((2::rat) powi 1024) = 1024" by (intro ilog2_unique) simp_all
  moreover have "ilog2 ((2::rat) powi 1024) \<le> ilog2 x" using big by (intro ilog2_mono) simp_all
  ultimately have "1024 \<le> expo x" by (simp add: expo_def)
  then have "(2::rat) powi 1024 \<le> 2 powi expo x" by (rule powi2_mono)
  also have "\<dots> \<le> round_mag x" using n by (rule round_mag_lower)
  finally have "\<not> round_mag x < 2 ^ 1024" by simp
  with pos show ?thesis by (simp add: fl_def Let_def)
qed

section \<open>The scenario of the specification, evaluated\<close>

text \<open>
  The rate 4.20 is the float nearest to 42/10, and 100.0 billions are exactly
  \<open>10\<^sup>1\<^sup>1\<close> dollars.
\<close>

lemma float_4_20: "fl (42 / 10) = Fin (4728779608739021 / 1125899906842624)"
  by (rule fl_nearest [where e = 2 and n = 4728779608739021]) simp_all

lemma float_4_50: "fl (45 / 10) = Fin (9 / 2)"
  by (rule fl_nearest [where e = 2 and n = 5066549580791808]) simp_all

lemma debt_100_billion: "fmul (Fin 100) (Fin 1000000000) = Fin 100000000000"
  unfolding fmul.simps
  by (rule fl_nearest [where e = 36 and n = 6553600000000000]) simp_all

lemma div100_4_20:
  "div100 (Fin (4728779608739021 / 1125899906842624)) = Fin (6052837899185947 / 144115188075855872)"
  unfolding div100_def pyfloat.case
  by (rule fl_nearest [where e = "- 5" and n = 6052837899185947]) simp_all

lemma div100_4_50: "div100 (Fin (9 / 2)) = Fin (3242591731706757 / 72057594037927936)"
  unfolding div100_def pyfloat.case
  by (rule fl_nearest [where e = "- 5" and n = 6485183463413514]) simp_all

lemma scenario_historical:
  "historical_interest_cost (Fin 100000000000) (Fin (4728779608739021 / 1125899906842624))
     = Fin (8808038400000001 / 2097152)"
  unfolding historical_interest_cost_def div100_4_20 fmul.simps
  by (rule fl_nearest [where e = 31 and n = 8808038400000001]) simp_all

lemma scenario_current:
  "current_interest_cost (Fin 100000000000) (Fin (9 / 2)) = Fin 4500000000"
  unfolding current_interest_cost_def div100_4_50 fmul.simps
  by (rule fl_nearest [where e = 32 and n = 4718592000000000]) simp_all

lemma scenario_additional:
  "additional_cost (Fin 100000000000) (Fin (4728779608739021 / 1125899906842624)) (Fin (9 / 2))
     = Fin (629145599999999 / 2097152)"
  unfolding additional_cost_def scenario_historical scenario_current fsub.simps
  by (rule fl_nearest [where e = 28 and n = 5033164799999992]) simp_all

lemma multiply_first_4_20:
  "div100 (fmul (Fin 100000000000) (Fin (4728779608739021 / 1125899906842624))) = Fin 4200000000"
proof -
  have "fmul (Fin 100000000000) (Fin (4728779608739021 / 1125899906842624)) = Fin 420000000000"
    unfolding fmul.simps
    by (rule fl_nearest [where e = 38 and n = 6881280000000000]) simp_all
  moreover have "div100 (Fin 420000000000) = Fin 4200000000"
    unfolding div100_def pyfloat.case
    by (rule fl_nearest [where e = 31 and n = 8808038400000000]) simp_all
  ultimately show ?thesis by simp
qed

lemma moderate_scenario:
  "moderate 100000000000" "moderate (4728779608739021 / 1125899906842624)" "moderate (9 / 2)"
  by (simp_all add: moderate_def)

section \<open>The cost calculator\<close>

text \<open>
  Claim C1, as the specification states it: the historical cost is
  \<open>principal * historicalRate / 100\<close>. The program divides the rate by 100 first
  and then multiplies, in binary floating point. For 100 billion dollars at 4.20 per
  cent the result is neither the exact value of the formula nor what the formula
  gives when evaluated in floating point from left to right.
\<close>

theorem cost_formula_counterexample:
  "historical_interest_cost (Fin 100000000000) (Fin (4728779608739021 / 1125899906842624))
     \<noteq> Fin (100000000000 * (4728779608739021 / 1125899906842624) / 100)
   \<and> historical_interest_cost (Fin 100000000000) (Fin (4728779608739021 / 1125899906842624))
     \<noteq> div100 (fmul (Fin 100000000000) (Fin (4728779608739021 / 1125899906842624)))"
  unfolding scenario_historical multiply_first_4_20 by simp

text \<open>
  Claim C1, amended. For a principal and rates of moderate magnitude both costs are
  finite and agree with the formulas of the specification up to a relative error of
  \<open>2\<^sup>-\<^sup>5\<^sup>1\<close>, and the additional cost is the difference of the two costs, rounded once.
\<close>

theorem cost_calculator_rounded:
  assumes "moderate debt_amount" and "moderate historicalRate" and "moderate currentRate"
  shows "\<exists>h c. historical_interest_cost (Fin debt_amount) (Fin historicalRate) = Fin h
           \<and> current_interest_cost (Fin debt_amount) (Fin currentRate) = Fin c
           \<and> \<bar>h - debt_amount * historicalRate / 100\<bar> \<le> \<bar>debt_amount * historicalRate / 100\<bar> / 2 ^ 51
           \<and> \<bar>c - debt_amount * currentRate / 100\<bar> \<le> \<bar>debt_amount * currentRate / 100\<bar> / 2 ^ 51
           \<and> additional_cost (Fin debt_amount) (Fin historicalRate) (Fin currentRate) = fl (c - h)"
proof -
  from cost_bound [OF assms(1,2)] obtain h where
    h: "fmul (Fin debt_amount) (div100 (Fin historicalRate)) = Fin h"
       "\<bar>h - debt_amount * historicalRate / 100\<bar> \<le> \<bar>debt_amount * historicalRate / 100\<bar> / 2 ^ 51"
    by blast
  from cost_bound [OF assms(1,3)] obtain c where
    c: "fmul (Fin debt_amount) (div100 (Fin currentRate)) = Fin c"
       "\<bar>c - debt_amount * currentRate / 100\<bar> \<le> \<bar>debt_amount * currentRate / 100\<bar> / 2 ^ 51"
    by blast
  have "additional_cost (Fin debt_amount) (Fin historicalRate) (Fin currentRate) = fl (c - h)"
    by (simp add: additional_cost_def current_interest_cost_def historical_interest_cost_def h c)
  with h c show ?thesis
    unfolding current_interest_cost_def historical_interest_cost_def by blast
qed

theorem cost_calculator_rounded_witness:
  "moderate 100000000000 \<and> moderate (4728779608739021 / 1125899906842624) \<and> moderate (9 / 2)
   \<and> (\<exists>h c. historical_interest_cost (Fin 100000000000) (Fin (4728779608739021 / 1125899906842624)) = Fin h
         \<and> current_interest_cost (Fin 100000000000) (Fin (9 / 2)) = Fin c
         \<and> \<bar>h - 100000000000 * (4728779608739021 / 1125899906842624) / 100\<bar>
             \<le> \<bar>100000000000 * (4728779608739021 / 1125899906842624) / 100\<bar> / 2 ^ 51
         \<and> \<bar>c - 100000000000 * (9 / 2) / 100\<bar> \<le> \<bar>100000000000 * (9 / 2) / 100\<bar> / 2 ^ 51
         \<and> additional_cost (Fin 100000000000) (Fin (4728779608739021 / 1125899906842624)) (Fin (9 / 2))
             = fl (c - h))"
  using cost_calculator_rounded [OF moderate_scenario] moderate_scenario by blast

text \<open>
  Claim C6, as the specification states it, for every principal \<open>\<ge> 0\<close>: the
  additional cost is positive exactly when the current rate exceeds the historical
  one. With a principal of zero it is zero whatever the rates; two rates one
  rounding step apart (7 and the next float above 7) have the same hundredth, so
  that 100 billion dollars cost the same at both; and with the largest finite float
  as principal both costs at 200 and 300 per cent overflow to infinity, and their
  difference is NaN, which is not positive.
\<close>

theorem sign_counterexample:
  "\<not> (flt (Fin 0) (additional_cost (Fin 0) (Fin (4728779608739021 / 1125899906842624)) (Fin (9 / 2)))
        \<longleftrightarrow> (4728779608739021 / 1125899906842624 :: rat) < 9 / 2)
   \<and> \<not> (flt (Fin 0) (additional_cost (Fin 100000000000) (Fin 7)
                        (Fin (7881299347898369 / 1125899906842624)))
        \<longleftrightarrow> (7 :: rat) < 7881299347898369 / 1125899906842624)
   \<and> \<not> (flt (Fin 0) (additional_cost (Fin (2 ^ 1024 - 2 ^ 971)) (Fin 200) (Fin 300))
        \<longleftrightarrow> (200 :: rat) < 300)"
proof -
  have z: "additional_cost (Fin 0) (Fin (4728779608739021 / 1125899906842624)) (Fin (9 / 2)) = Fin 0"
    by (simp add: additional_cost_def current_interest_cost_def historical_interest_cost_def
          div100_4_20 div100_4_50 fl_zero)
  have a: "div100 (Fin 7) = Fin (1261007895663739 / 18014398509481984)"
    unfolding div100_def pyfloat.case
    by (rule fl_nearest [where e = "- 4" and n = 5044031582654956]) simp_all
  have b: "div100 (Fin (7881299347898369 / 1125899906842624))
             = Fin (1261007895663739 / 18014398509481984)"
    unfolding div100_def pyfloat.case
    by (rule fl_nearest [where e = "- 4" and n = 5044031582654956]) simp_all
  have c: "fmul (Fin 100000000000) (Fin (1261007895663739 / 18014398509481984))
             = Fin (7340032000000001 / 1048576)"
    unfolding fmul.simps
    by (rule fl_nearest [where e = 32 and n = 7340032000000001]) simp_all
  have s: "additional_cost (Fin 100000000000) (Fin 7) (Fin (7881299347898369 / 1125899906842624))
             = Fin 0"
    unfolding additional_cost_def current_interest_cost_def historical_interest_cost_def a b c
    by (simp add: fl_zero)
  have d2: "div100 (Fin 200) = Fin 2"
    unfolding div100_def pyfloat.case
    by (rule fl_nearest [where e = 1 and n = 4503599627370496]) simp_all
  have d3: "div100 (Fin 300) = Fin 3"
    unfolding div100_def pyfloat.case
    by (rule fl_nearest [where e = 1 and n = 6755399441055744]) simp_all
  have o2: "fmul (Fin (2 ^ 1024 - 2 ^ 971)) (Fin 2) = PInf"
    unfolding fmul.simps by (rule fl_overflow) simp
  have o3: "fmul (Fin (2 ^ 1024 - 2 ^ 971)) (Fin 3) = PInf"
    unfolding fmul.simps by (rule fl_overflow) simp
  have n: "additional_cost (Fin (2 ^ 1024 - 2 ^ 971)) (Fin 200) (Fin 300) = NaN"
    unfolding additional_cost_def current_interest_cost_def historical_interest_cost_def d2 d3 o2 o3
    by simp
  show ?thesis unfolding z s n by simp
qed

text \<open>
  Claim C6, amended. For every principal \<open>\<ge> 0\<close> and all finite rates the
  additional cost never has the sign opposite to that of \<open>rate_c - rate_h\<close>: it is
  positive only if the current rate is higher and negative only if it is lower. If
  moreover the principal is positive, the principal and both rates are of moderate
  magnitude (zero, or between \<open>2\<^sup>-\<^sup>4\<^sup>0\<^sup>0\<close> and \<open>2\<^sup>4\<^sup>0\<^sup>0\<close> in absolute value), and the two
  rates are equal or differ by at least \<open>2\<^sup>-\<^sup>4\<^sup>9\<close> of their combined magnitude (as any
  two different published rates do), then it is positive exactly when the current
  rate is higher, negative exactly when it is lower, and zero exactly when they are
  equal.
\<close>

theorem additional_cost_sign:
  "(0 \<le> debt_amount \<longrightarrow>
      (flt (Fin 0) (additional_cost (Fin debt_amount) (Fin rate_h) (Fin rate_c)) \<longrightarrow> rate_h < rate_c)
    \<and> (flt (additional_cost (Fin debt_amount) (Fin rate_h) (Fin rate_c)) (Fin 0) \<longrightarrow> rate_c < rate_h))
   \<and> (0 < debt_amount \<and> moderate debt_amount \<and> moderate rate_h \<and> moderate rate_c
        \<and> (rate_h = rate_c \<or> (\<bar>rate_h\<bar> + \<bar>rate_c\<bar>) / 2 ^ 49 \<le> \<bar>rate_c - rate_h\<bar>) \<longrightarrow>
      (flt (Fin 0) (additional_cost (Fin debt_amount) (Fin rate_h) (Fin rate_c)) \<longleftrightarrow> rate_h < rate_c)
    \<and> (flt (additional_cost (Fin debt_amount) (Fin rate_h) (Fin rate_c)) (Fin 0) \<longleftrightarrow> rate_c < rate_h)
    \<and> (additional_cost (Fin debt_amount) (Fin rate_h) (Fin rate_c) = Fin 0 \<longleftrightarrow> rate_h = rate_c))"
proof -
  let ?a = "additional_cost (Fin debt_amount) (Fin rate_h) (Fin rate_c)"
  have w1: "rate_h < rate_c" if p0: "0 \<le> debt_amount" and f: "flt (Fin 0) ?a"
  proof (rule ccontr)
    assume "\<not> rate_h < rate_c"
    then have "rate_c \<le> rate_h" by simp
    with p0 have "\<not> flt (Fin 0) ?a" by (rule additional_not_positive)
    with f show False by simp
  qed
  have w2: "rate_c < rate_h" if p0: "0 \<le> debt_amount" and f: "flt ?a (Fin 0)"
  proof (rule ccontr)
    assume "\<not> rate_c < rate_h"
    then have "rate_h \<le> rate_c" by simp
    with p0 have "\<not> flt ?a (Fin 0)" by (rule additional_not_negative)
    with f show False by simp
  qed
  have s: "(flt (Fin 0) ?a \<longleftrightarrow> rate_h < rate_c) \<and> (flt ?a (Fin 0) \<longleftrightarrow> rate_c < rate_h)
           \<and> (?a = Fin 0 \<longleftrightarrow> rate_h = rate_c)"
    if p: "0 < debt_amount" "moderate debt_amount" and mh: "moderate rate_h" and mc: "moderate rate_c"
      and sep: "rate_h = rate_c \<or> (\<bar>rate_h\<bar> + \<bar>rate_c\<bar>) / 2 ^ 49 \<le> \<bar>rate_c - rate_h\<bar>"
  proof -
    consider "rate_h = rate_c" | "rate_h < rate_c" "(\<bar>rate_h\<bar> + \<bar>rate_c\<bar>) / 2 ^ 49 \<le> rate_c - rate_h"
      | "rate_c < rate_h" "(\<bar>rate_h\<bar> + \<bar>rate_c\<bar>) / 2 ^ 49 \<le> rate_h - rate_c"
      using sep by (cases "rate_h < rate_c"; cases "rate_c < rate_h") auto
    then show ?thesis
    proof cases
      case 1
      then have "?a = Fin 0" using additional_zero [OF p(2) mc] by simp
      with 1 show ?thesis by simp
    next
      case 2
      then have "rate_h \<noteq> rate_c" by simp
      from additional_positive [OF p mh mc 2(2) this] obtain a where "?a = Fin a" "0 < a" by blast
      with 2(1) show ?thesis by simp
    next
      case 3
      then have "rate_h \<noteq> rate_c" by simp
      from additional_negative [OF p mh mc 3(2) this] obtain a where "?a = Fin a" "a < 0" by blast
      with 3(1) show ?thesis by simp
    qed
  qed
  show ?thesis
  proof (intro conjI impI)
    assume "0 \<le> debt_amount" and "flt (Fin 0) ?a"
    then show "rate_h < rate_c" by (rule w1)
  next
    assume "0 \<le> debt_amount" and "flt ?a (Fin 0)"
    then show "rate_c < rate_h" by (rule w2)
  next
    assume h: "0 < debt_amount \<and> moderate debt_amount \<and> moderate rate_h \<and> moderate rate_c
        \<and> (rate_h = rate_c \<or> (\<bar>rate_h\<bar> + \<bar>rate_c\<bar>) / 2 ^ 49 \<le> \<bar>rate_c - rate_h\<bar>)"
    then have "(flt (Fin 0) ?a \<longleftrightarrow> rate_h < rate_c) \<and> (flt ?a (Fin 0) \<longleftrightarrow> rate_c < rate_h)
           \<and> (?a = Fin 0 \<longleftrightarrow> rate_h = rate_c)"
      by (elim conjE) (rule s)
    then show "flt (Fin 0) ?a \<longleftrightarrow> rate_h < rate_c" "flt ?a (Fin 0) \<longleftrightarrow> rate_c < rate_h"
      "?a = Fin 0 \<longleftrightarrow> rate_h = rate_c"
      by blast+
  qed
qed

theorem additional_cost_sign_witness:
  "(0 :: rat) < 100000000000 \<and> moderate 100000000000
   \<and> moderate (4728779608739021 / 1125899906842624) \<and> moderate (9 / 2)
   \<and> (\<bar>4728779608739021 / 1125899906842624\<bar> + \<bar>9 / 2\<bar>) / 2 ^ 49
        \<le> \<bar>9 / 2 - 4728779608739021 / 1125899906842624 :: rat\<bar>
   \<and> flt (Fin 0) (additional_cost (Fin 100000000000)
                     (Fin (4728779608739021 / 1125899906842624)) (Fin (9 / 2)))
   \<and> \<not> flt (additional_cost (Fin 100000000000)
                (Fin (4728779608739021 / 1125899906842624)) (Fin (9 / 2))) (Fin 0)
   \<and> additional_cost (Fin 100000000000)
        (Fin (4728779608739021 / 1125899906842624)) (Fin (9 / 2)) \<noteq> Fin 0"
proof -
  have p: "(0 :: rat) < 100000000000" by simp
  have sep: "(\<bar>4728779608739021 / 1125899906842624\<bar> + \<bar>9 / 2\<bar>) / 2 ^ 49
        \<le> \<bar>9 / 2 - 4728779608739021 / 1125899906842624 :: rat\<bar>" by simp
  have lt: "(4728779608739021 / 1125899906842624 :: rat) < 9 / 2" by simp
  note t = additional_cost_sign
             [of 100000000000 "4728779608739021 / 1125899906842624" "9 / 2"]
  note strict = t [THEN conjunct2, THEN mp,
                   OF conjI [OF p conjI [OF moderate_scenario(1) conjI [OF moderate_scenario(2)
                        conjI [OF moderate_scenario(3) disjI2 [OF sep]]]]]]
  from strict lt have pos: "flt (Fin 0) (additional_cost (Fin 100000000000)
                     (Fin (4728779608739021 / 1125899906842624)) (Fin (9 / 2)))"
    and nz: "additional_cost (Fin 100000000000)
        (Fin (4728779608739021 / 1125899906842624)) (Fin (9 / 2)) \<noteq> Fin 0"
    by simp_all
  from strict lt have nn: "\<not> flt (additional_cost (Fin 100000000000)
                (Fin (4728779608739021 / 1125899906842624)) (Fin (9 / 2))) (Fin 0)"
    by simp
  show ?thesis by (intro conjI p moderate_scenario sep pos nn nz)
qed

lemma example_page:
  "script example_fred no_caches now ''10-Year Treasury'' (Fin 100) =
     Inr (\<lparr>historical = (Some (Fin (4728779608739021 / 1125899906842624)), Some 739342),
            current = (Some (Fin (9 / 2)), Some 739343),
            interest_costs = Some (Fin (8808038400000001 / 2097152), Fin 4500000000,
                                   Fin (629145599999999 / 2097152)),
            events = [RemoteCall ''DGS10'' (Some 739335) (Some 739342),
                      RemoteCall ''DGS10'' None None]\<rparr>,
          \<lparr>historical_cache =
              [(''DGS10'', HISTORICAL_DATE) \<mapsto>
                 (((Some (Fin (4728779608739021 / 1125899906842624)), Some 739342),
                   [RemoteCall ''DGS10'' (Some 739335) (Some 739342)]), now)],
            current_cache =
              [''DGS10'' \<mapsto>
                 (((Some (Fin (9 / 2)), Some 739343), [RemoteCall ''DGS10'' None None]), now)]\<rparr>)"
  by (simp add: script_def FRED_SERIES_def no_caches_def Let_def cached_get_fred_rate_def
        cached_get_current_fred_rate_def cache_data_def example_historical example_current
        debt_100_billion scenario_historical scenario_current scenario_additional
      del: fmul.simps fsub.simps)

text \<open>
  Claim C7, as the specification states it: with 4.20 per cent then, 4.50 per cent
  now and 100 billion dollars, an additional cost of exactly 300,000,000 dollars and
  a historical cost of exactly 4,200,000,000 dollars. In binary floating point
  4.20/100 is not exact, and the program's values are off by \<open>2\<^sup>-\<^sup>2\<^sup>1\<close> dollars.
\<close>

theorem scenario_counterexample:
  "historical_interest_cost (fmul (Fin 100) (Fin 1000000000)) (fl (42 / 10)) \<noteq> Fin 4200000000
   \<and> additional_cost (fmul (Fin 100) (Fin 1000000000)) (fl (42 / 10)) (fl (45 / 10))
       \<noteq> Fin 300000000"
  unfolding debt_100_billion float_4_20 float_4_50 scenario_historical scenario_additional
  by simp

text \<open>
  Claim C7, amended. In that scenario the program computes 4,200,000,000 + \<open>2\<^sup>-\<^sup>2\<^sup>1\<close>
  (the float 4200000000.0000005), exactly 4,500,000,000, and 300,000,000 - \<open>2\<^sup>-\<^sup>2\<^sup>1\<close>
  (the float 299999999.9999995); printed with two decimals, as the page shows them,
  these are 4,200,000,000.00, 4,500,000,000.00 and 300,000,000.00 dollars. The
  script run on the example source, where the window ends with 4.20 on 2025-04-01
  and the latest observation is 4.50, computes the same three values.
\<close>

theorem scenario_costs:
  "historical_interest_cost (fmul (Fin 100) (Fin 1000000000)) (fl (42 / 10))
     = Fin (4200000000 + 1 / 2 ^ 21)
   \<and> current_interest_cost (fmul (Fin 100) (Fin 1000000000)) (fl (45 / 10)) = Fin 4500000000
   \<and> additional_cost (fmul (Fin 100) (Fin 1000000000)) (fl (42 / 10)) (fl (45 / 10))
     = Fin (300000000 - 1 / 2 ^ 21)
   \<and> cents (historical_interest_cost (fmul (Fin 100) (Fin 1000000000)) (fl (42 / 10)))
     = Some 420000000000
   \<and> cents (current_interest_cost (fmul (Fin 100) (Fin 1000000000)) (fl (45 / 10)))
     = Some 450000000000
   \<and> cents (additional_cost (fmul (Fin 100) (Fin 1000000000)) (fl (42 / 10)) (fl (45 / 10)))
     = Some 30000000000
   \<and> (case script example_fred no_caches now ''10-Year Treasury'' (Fin 100) of
         Inl e \<Rightarrow> None | Inr (pg, cs') \<Rightarrow> interest_costs pg)
     = Some (Fin (4200000000 + 1 / 2 ^ 21), Fin 4500000000, Fin (300000000 - 1 / 2 ^ 21))"
proof -
  have r1: "rne (8808038400000001 / 2097152 * 100) = 420000000000"
    by (rule rne_nearest) simp
  have r2: "rne (4500000000 * 100) = 450000000000"
    by (rule rne_nearest) simp
  have r3: "rne (629145599999999 / 2097152 * 100) = 30000000000"
    by (rule rne_nearest) simp
  show ?thesis
    unfolding debt_100_billion float_4_20 float_4_50 scenario_historical scenario_current
      scenario_additional cents_def pyfloat.case r1 r2 r3 example_page
    by simp
qed

section \<open>The resolvers\<close>

text \<open>
  Claim C2, as the specification states it: whenever the fetched data have an
  observation that is not missing, the resolver returns the one with the latest
  date. The resolvers take the last row of the response. When the response lists
  2025-04-01 before 2025-03-30, both inside the window, they return the observation
  of 2025-03-30 although the one of 2025-04-01 is not missing.
\<close>

theorem last_row_counterexample:
  "fst (get_fred_rate (answering [(739342, Fin 4), (739340, Fin 5)]) ''DGS10'' HISTORICAL_DATE)
     = (Some (Fin 5), Some 739340)
   \<and> fst (get_current_fred_rate (answering [(739342, Fin 4), (739340, Fin 5)]) ''DGS10'')
     = (Some (Fin 5), Some 739340)
   \<and> (739342, Fin 4) \<in> set [(739342 :: int, Fin 4), (739340, Fin 5)]
   \<and> Fin 4 \<noteq> NaN
   \<and> (739340 :: int) < 739342
   \<and> HISTORICAL_DATE - 7 \<le> 739340
   \<and> 739342 \<le> HISTORICAL_DATE"
  by (simp add: get_fred_rate_def get_current_fred_rate_def answering_def dropna_def Let_def
        HISTORICAL_DATE_def)

text \<open>
  Claim C2, amended. When the response to the request (the window of seven days
  before the target date for \<open>get_fred_rate\<close>, the whole history for
  \<open>get_current_fred_rate\<close>) is in chronological order and has an observation that
  is not missing, the resolver returns an observation of the response that is not
  missing, with its own date, and no observation of the response that is not
  missing has a later date.
\<close>

theorem resolvers_return_latest_observation:
  "(fred_client series_id (Some (date - 7)) (Some date) = Inr window
      \<and> chronological window \<and> (\<exists>(d, v) \<in> set window. v \<noteq> NaN) \<longrightarrow>
      (\<exists>v d. fst (get_fred_rate fred_client series_id date) = (Some v, Some d)
         \<and> (d, v) \<in> set window \<and> v \<noteq> NaN
         \<and> (\<forall>(d', v') \<in> set window. v' \<noteq> NaN \<longrightarrow> d' \<le> d)))
   \<and> (fred_client series_id None None = Inr history
      \<and> chronological history \<and> (\<exists>(d, v) \<in> set history. v \<noteq> NaN) \<longrightarrow>
      (\<exists>v d. fst (get_current_fred_rate fred_client series_id) = (Some v, Some d)
         \<and> (d, v) \<in> set history \<and> v \<noteq> NaN
         \<and> (\<forall>(d', v') \<in> set history. v' \<noteq> NaN \<longrightarrow> d' \<le> d)))"
proof -
  have latest: "(fst (last (dropna data)), snd (last (dropna data))) \<in> set data
      \<and> snd (last (dropna data)) \<noteq> NaN
      \<and> (\<forall>(d', v') \<in> set data. v' \<noteq> NaN \<longrightarrow> d' \<le> fst (last (dropna data)))
      \<and> dropna data \<noteq> []"
    if "chronological data" and "\<exists>(d, v) \<in> set data. v \<noteq> NaN" for data
  proof -
    have ne: "dropna data \<noteq> []" using that(2) by (auto simp: dropna_empty_iff)
    from dropna_last [OF ne] dropna_last_latest [OF that(1)] ne show ?thesis by auto
  qed
  have a: "\<exists>v d. fst (get_fred_rate fred_client series_id date) = (Some v, Some d)
            \<and> (d, v) \<in> set window \<and> v \<noteq> NaN
            \<and> (\<forall>(d', v') \<in> set window. v' \<noteq> NaN \<longrightarrow> d' \<le> d)"
    if r: "fred_client series_id (Some (date - 7)) (Some date) = Inr window"
      and c: "chronological window" and n: "\<exists>(d, v) \<in> set window. v \<noteq> NaN"
    using latest [OF c n] by (simp add: get_fred_rate_Inr [of fred_client series_id date, OF r])
  have b: "\<exists>v d. fst (get_current_fred_rate fred_client series_id) = (Some v, Some d)
            \<and> (d, v) \<in> set history \<and> v \<noteq> NaN
            \<and> (\<forall>(d', v') \<in> set history. v' \<noteq> NaN \<longrightarrow> d' \<le> d)"
    if r: "fred_client series_id None None = Inr history"
      and c: "chronological history" and n: "\<exists>(d, v) \<in> set history. v \<noteq> NaN"
    using latest [OF c n] by (simp add: get_current_fred_rate_Inr [of fred_client series_id, OF r])
  show ?thesis
  proof (intro conjI impI)
    assume "fred_client series_id (Some (date - 7)) (Some date) = Inr window
      \<and> chronological window \<and> (\<exists>(d, v) \<in> set window. v \<noteq> NaN)"
    then show "\<exists>v d. fst (get_fred_rate fred_client series_id date) = (Some v, Some d)
         \<and> (d, v) \<in> set window \<and> v \<noteq> NaN
         \<and> (\<forall>(d', v') \<in> set window. v' \<noteq> NaN \<longrightarrow> d' \<le> d)"
      using a by (elim conjE)
  next
    assume "fred_client series_id None None = Inr history
      \<and> chronological history \<and> (\<exists>(d, v) \<in> set history. v \<noteq> NaN)"
    then show "\<exists>v d. fst (get_current_fred_rate fred_client series_id) = (Some v, Some d)
         \<and> (d, v) \<in> set history \<and> v \<noteq> NaN
         \<and> (\<forall>(d', v') \<in> set history. v' \<noteq> NaN \<longrightarrow> d' \<le> d)"
      using b by (elim conjE)
  qed
qed

theorem resolvers_return_latest_observation_witness:
  "example_fred ''DGS10'' (Some (HISTORICAL_DATE - 7)) (Some HISTORICAL_DATE) =
     Inr [(739339, Fin (17 / 4)), (739340, NaN), (739341, Fin (33 / 8)),
          (739342, Fin (4728779608739021 / 1125899906842624))]
   \<and> chronological [(739339, Fin (17 / 4)), (739340, NaN), (739341, Fin (33 / 8)),
                      (739342, Fin (4728779608739021 / 1125899906842624))]
   \<and> example_fred ''DGS10'' None None =
     Inr [(739339, Fin (17 / 4)), (739340, NaN), (739341, Fin (33 / 8)),
          (739342, Fin (4728779608739021 / 1125899906842624)), (739343, Fin (9 / 2))]
   \<and> chronological [(739339, Fin (17 / 4)), (739340, NaN), (739341, Fin (33 / 8)),
                      (739342, Fin (4728779608739021 / 1125899906842624)),
                      (739343, Fin (9 / 2))]
   \<and> fst (get_fred_rate example_fred ''DGS10'' HISTORICAL_DATE)
     = (Some (Fin (4728779608739021 / 1125899906842624)), Some 739342)
   \<and> fst (get_current_fred_rate example_fred ''DGS10'') = (Some (Fin (9 / 2)), Some 739343)
   \<and> (\<exists>v d. fst (get_fred_rate example_fred ''DGS10'' HISTORICAL_DATE) = (Some v, Some d)
        \<and> (d, v) \<in> set [(739339, Fin (17 / 4)), (739340, NaN), (739341, Fin (33 / 8)),
                          (739342, Fin (4728779608739021 / 1125899906842624))]
        \<and> v \<noteq> NaN
        \<and> (\<forall>(d', v') \<in> set [(739339, Fin (17 / 4)), (739340, NaN), (739341, Fin (33 / 8)),
                          (739342, Fin (4728779608739021 / 1125899906842624))].
             v' \<noteq> NaN \<longrightarrow> d' \<le> d))
   \<and> (\<exists>v d. fst (get_current_fred_rate example_fred ''DGS10'') = (Some v, Some d)
        \<and> (d, v) \<in> set [(739339, Fin (17 / 4)), (739340, NaN), (739341, Fin (33 / 8)),
                          (739342, Fin (4728779608739021 / 1125899906842624)),
                          (739343, Fin (9 / 2))]
        \<and> v \<noteq> NaN
        \<and> (\<forall>(d', v') \<in> set [(739339, Fin (17 / 4)), (739340, NaN), (739341, Fin (33 / 8)),
                          (739342, Fin (4728779608739021 / 1125899906842624)),
                          (739343, Fin (9 / 2))].
             v' \<noteq> NaN \<longrightarrow> d' \<le> d))"
proof -
  have c1: "chronological [(739339, Fin (17 / 4)), (739340, NaN), (739341, Fin (33 / 8)),
                          (739342, Fin (4728779608739021 / 1125899906842624))]"
    by (simp add: chronological_def)
  have c2: "chronological [(739339, Fin (17 / 4)), (739340, NaN), (739341, Fin (33 / 8)),
                          (739342, Fin (4728779608739021 / 1125899906842624)),
                          (739343, Fin (9 / 2))]"
    by (simp add: chronological_def)
  have n1: "\<exists>(d, v) \<in> set [(739339, Fin (17 / 4)), (739340, NaN), (739341, Fin (33 / 8)),
                          (739342, Fin (4728779608739021 / 1125899906842624))]. v \<noteq> NaN"
    by simp
  have n2: "\<exists>(d, v) \<in> set [(739339, Fin (17 / 4)), (739340, NaN), (739341, Fin (33 / 8)),
                          (739342, Fin (4728779608739021 / 1125899906842624)),
                          (739343, Fin (9 / 2))]. v \<noteq> NaN"
    by simp
  note t0 = resolvers_return_latest_observation [of example_fred "''DGS10''" HISTORICAL_DATE]
  note t = conjI [OF t0 [THEN conjunct1, THEN mp, OF conjI [OF example_window conjI [OF c1 n1]]]
                     t0 [THEN conjunct2, THEN mp, OF conjI [OF example_all conjI [OF c2 n2]]]]
  have r1: "fst (get_fred_rate example_fred ''DGS10'' HISTORICAL_DATE)
     = (Some (Fin (4728779608739021 / 1125899906842624)), Some 739342)"
    by (simp add: example_historical)
  have r2: "fst (get_current_fred_rate example_fred ''DGS10'') = (Some (Fin (9 / 2)), Some 739343)"
    by (simp add: example_current)
  show ?thesis
    by (intro conjI example_window c1 example_all c2 r1 r2 t [THEN conjunct1] t [THEN conjunct2])
qed

text \<open>
  Claim C3, as the specification states it, for every remote data source: an
  observation returned by \<open>get_fred_rate\<close> is never dated after the target date.
  The function asks for the range and compares no dates itself. Against a source
  that answers with rows up to 2025-04-02 when asked for the week ending on
  2025-04-01, it returns the observation of 2025-04-02.
\<close>

theorem later_observation_counterexample:
  "fst (get_fred_rate
          (answering [(739342, Fin (4728779608739021 / 1125899906842624)), (739343, Fin (9 / 2))])
          ''DGS10'' HISTORICAL_DATE)
     = (Some (Fin (9 / 2)), Some 739343)
   \<and> HISTORICAL_DATE < 739343"
  by (simp add: get_fred_rate_def answering_def dropna_def Let_def HISTORICAL_DATE_def)

text \<open>
  Claim C3, amended. Against a remote source that answers a request with
  observations of the requested range only, an observation returned by
  \<open>get_fred_rate\<close> is dated on the target date or at most seven days before it,
  never after it.
\<close>

theorem historical_rate_not_after_target:
  assumes "honours_range fred_client"
    and "fst (get_fred_rate fred_client series_id date) = (Some v, Some d)"
  shows "d \<le> date \<and> date - 7 \<le> d"
proof (cases "fred_client series_id (Some (date - 7)) (Some date)")
  case (Inl e)
  with assms(2) show ?thesis
    by (simp add: get_fred_rate_Inl [of fred_client series_id date, OF Inl])
next
  case (Inr data)
  with assms(2) have ne: "dropna data \<noteq> []" and d: "d = fst (last (dropna data))"
    by (auto simp: get_fred_rate_Inr [of fred_client series_id date, OF Inr] split: if_splits)
  from dropna_last(1) [OF ne] have "(d, snd (last (dropna data))) \<in> set data" by (simp add: d)
  with assms(1) Inr have "in_range (Some (date - 7)) (Some date) d"
    unfolding honours_range_def by blast
  then show ?thesis by (simp add: in_range_def)
qed

theorem historical_rate_not_after_target_witness:
  "honours_range example_fred
   \<and> fst (get_fred_rate example_fred ''DGS10'' HISTORICAL_DATE)
       = (Some (Fin (4728779608739021 / 1125899906842624)), Some 739342)
   \<and> (739342 :: int) \<le> HISTORICAL_DATE \<and> HISTORICAL_DATE - 7 \<le> (739342 :: int)"
proof -
  have h: "honours_range example_fred" unfolding example_fred_def by (rule serving_honours_range)
  have r: "fst (get_fred_rate example_fred ''DGS10'' HISTORICAL_DATE)
       = (Some (Fin (4728779608739021 / 1125899906842624)), Some 739342)"
    by (simp add: example_historical)
  from historical_rate_not_after_target [OF h r] h r show ?thesis by simp
qed

text \<open>
  Claim C4. When the response for the window has no observation, or only missing
  ones, \<open>get_fred_rate\<close> returns \<open>(None, None)\<close>: no value and no date; it made
  the one request and showed no error.
\<close>

theorem empty_window_not_found:
  assumes "fred_client series_id (Some (date - 7)) (Some date) = Inr window"
    and "\<forall>(d, v) \<in> set window. v = NaN"
  shows "get_fred_rate fred_client series_id date
           = ((None, None), [RemoteCall series_id (Some (date - 7)) (Some date)])"
proof -
  have "dropna window = []" using assms(2) by (simp add: dropna_empty_iff)
  then show ?thesis
    by (simp add: get_fred_rate_Inr [of fred_client series_id date, OF assms(1)])
qed

lemma example_missing_window:
  "example_fred ''DGS30'' (Some (HISTORICAL_DATE - 7)) (Some HISTORICAL_DATE)
     = Inr [(739341, NaN), (739342, NaN)]"
  by (simp add: example_fred_def serving_def example_history_def in_range_def HISTORICAL_DATE_def)

lemma example_unknown_series:
  "example_fred ''GDP'' a b = Inl ''Bad Request.  The series does not exist.''"
  by (simp add: example_fred_def serving_def example_history_def)

theorem empty_window_not_found_witness:
  "example_fred ''DGS30'' (Some (HISTORICAL_DATE - 7)) (Some HISTORICAL_DATE)
     = Inr [(739341, NaN), (739342, NaN)]
   \<and> get_fred_rate example_fred ''DGS30'' HISTORICAL_DATE
     = ((None, None), [RemoteCall ''DGS30'' (Some (HISTORICAL_DATE - 7)) (Some HISTORICAL_DATE)])"
proof -
  have "\<forall>(d, v) \<in> set [(739341 :: int, NaN), (739342, NaN)]. v = NaN" by simp
  from empty_window_not_found [of example_fred "''DGS30''" HISTORICAL_DATE,
         OF example_missing_window this] example_missing_window
  show ?thesis by simp
qed

text \<open>
  Claim C5, as the specification states it: a failure of the remote source reaches
  the caller as an error of its own kind, which the caller can tell from an empty
  window. The unknown series makes the remote source fail, the series of missing
  values gives an empty window, and the caller gets the same pair from both.
\<close>

theorem failure_not_distinguished_counterexample:
  "example_fred ''GDP'' (Some (HISTORICAL_DATE - 7)) (Some HISTORICAL_DATE)
     = Inl ''Bad Request.  The series does not exist.''
   \<and> example_fred ''DGS30'' (Some (HISTORICAL_DATE - 7)) (Some HISTORICAL_DATE)
     = Inr [(739341, NaN), (739342, NaN)]
   \<and> fst (get_fred_rate example_fred ''GDP'' HISTORICAL_DATE)
     = fst (get_fred_rate example_fred ''DGS30'' HISTORICAL_DATE)"
  by (simp add: example_unknown_series example_missing_window
        get_fred_rate_Inl [of example_fred "''GDP''" HISTORICAL_DATE, OF example_unknown_series]
        get_fred_rate_Inr [of example_fred "''DGS30''" HISTORICAL_DATE, OF example_missing_window]
        dropna_def)

text \<open>
  Claim C5, amended. When the remote source fails, each resolver catches the
  failure, shows an error box that names the series and carries the text of the
  failure, and returns \<open>(None, None)\<close>; when the response has no observation that is
  not missing it returns the same \<open>(None, None)\<close> and shows nothing. The two cases
  differ in the error box on the page, not in what the caller receives.
\<close>

theorem failure_and_empty_window_return_alike:
  "(fred_client series_id (Some (date - 7)) (Some date) = Inl e \<longrightarrow>
      get_fred_rate fred_client series_id date
        = ((None, None),
           [RemoteCall series_id (Some (date - 7)) (Some date),
            StError (''Error fetching historical FRED data for '' @ series_id @ '': '' @ e)]))
   \<and> (fred_client series_id (Some (date - 7)) (Some date) = Inr data \<and> dropna data = [] \<longrightarrow>
      get_fred_rate fred_client series_id date
        = ((None, None), [RemoteCall series_id (Some (date - 7)) (Some date)]))
   \<and> (fred_client series_id None None = Inl e \<longrightarrow>
      get_current_fred_rate fred_client series_id
        = ((None, None),
           [RemoteCall series_id None None,
            StError (''Error fetching current FRED data for '' @ series_id @ '': '' @ e)]))
   \<and> (fred_client series_id None None = Inr data \<and> dropna data = [] \<longrightarrow>
      get_current_fred_rate fred_client series_id
        = ((None, None), [RemoteCall series_id None None]))"
  by (simp add: get_fred_rate_def get_current_fred_rate_def Let_def)

theorem failure_and_empty_window_return_alike_witness:
  "example_fred ''GDP'' (Some (HISTORICAL_DATE - 7)) (Some HISTORICAL_DATE)
     = Inl ''Bad Request.  The series does not exist.''
   \<and> get_fred_rate example_fred ''GDP'' HISTORICAL_DATE
     = ((None, None),
        [RemoteCall ''GDP'' (Some (HISTORICAL_DATE - 7)) (Some HISTORICAL_DATE),
         StError (''Error fetching historical FRED data for '' @ ''GDP'' @ '': ''
                    @ ''Bad Request.  The series does not exist.'')])
   \<and> example_fred ''DGS30'' (Some (HISTORICAL_DATE - 7)) (Some HISTORICAL_DATE)
     = Inr [(739341, NaN), (739342, NaN)]
   \<and> dropna [(739341, NaN), (739342, NaN)] = []
   \<and> get_fred_rate example_fred ''DGS30'' HISTORICAL_DATE
     = ((None, None), [RemoteCall ''DGS30'' (Some (HISTORICAL_DATE - 7)) (Some HISTORICAL_DATE)])"
proof -
  have d: "dropna [(739341, NaN), (739342, NaN)] = []" by (simp add: dropna_def)
  note u = example_unknown_series [of "Some (HISTORICAL_DATE - 7)" "Some HISTORICAL_DATE"]
  note t1 = failure_and_empty_window_return_alike
         [of example_fred "''GDP''" HISTORICAL_DATE "''Bad Request.  The series does not exist.''",
          THEN conjunct1, THEN mp, OF u]
  note t2 = failure_and_empty_window_return_alike
         [of example_fred "''DGS30''" HISTORICAL_DATE _ "[(739341, NaN), (739342, NaN)]",
          THEN conjunct2, THEN conjunct1, THEN mp, OF conjI, OF example_missing_window d]
  show ?thesis by (intro conjI u t1 example_missing_window d t2)
qed

text \<open>
  Claim C10. Whatever the client does (raise, return an empty Series, return only
  missing values, return data), each of the two resolvers returns either a value
  together with a date, or \<open>(None, None)\<close>; the value, when there is one, is not
  the missing marker.
\<close>

theorem resolvers_return_coherent_pair:
  "((\<exists>v d. fst (get_fred_rate fred_client series_id date) = (Some v, Some d) \<and> v \<noteq> NaN)
      \<or> fst (get_fred_rate fred_client series_id date) = (None, None))
   \<and> ((\<exists>v d. fst (get_current_fred_rate fred_client series_id) = (Some v, Some d) \<and> v \<noteq> NaN)
      \<or> fst (get_current_fred_rate fred_client series_id) = (None, None))"
proof -
  have a: "(\<exists>v d. fst (get_fred_rate fred_client series_id date) = (Some v, Some d) \<and> v \<noteq> NaN)
      \<or> fst (get_fred_rate fred_client series_id date) = (None, None)"
    by (cases "fred_client series_id (Some (date - 7)) (Some date)")
       (simp_all add: get_fred_rate_def Let_def dropna_last(2))
  have b: "(\<exists>v d. fst (get_current_fred_rate fred_client series_id) = (Some v, Some d) \<and> v \<noteq> NaN)
      \<or> fst (get_current_fred_rate fred_client series_id) = (None, None)"
    by (cases "fred_client series_id None None")
       (simp_all add: get_current_fred_rate_def Let_def dropna_last(2))
  from a b show ?thesis by (rule conjI)
qed

section \<open>The cache\<close>

lemma cache_agreesD: "cache_agrees f cache \<Longrightarrow> cache k = Some (e, t) \<Longrightarrow> fst e = fst (f k)"
  unfolding cache_agrees_def by blast

lemma cache_data_value:
  assumes "cache_agrees f cache"
  shows "fst (fst (cache_data ttl f cache now k)) = fst (f k)"
proof (cases "cache k")
  case None
  then show ?thesis by (simp add: cache_data_def)
next
  case (Some entry)
  obtain r evs stored where e: "entry = ((r, evs), stored)" by (metis surj_pair)
  with Some assms have "r = fst (f k)" unfolding cache_agrees_def by fastforce
  with Some e show ?thesis by (simp add: cache_data_def)
qed

lemma cache_data_agrees:
  assumes "cache_agrees f cache"
  shows "cache_agrees f (snd (cache_data ttl f cache now k))"
proof (cases "cache k")
  case None
  with assms show ?thesis by (auto simp: cache_data_def cache_agrees_def)
next
  case (Some entry)
  obtain r evs stored where e: "entry = ((r, evs), stored)" by (metis surj_pair)
  with Some assms have r: "r = fst (f k)" unfolding cache_agrees_def by fastforce
  show ?thesis unfolding cache_agrees_def
  proof (intro allI impI)
    fix k' e' t'
    assume "snd (cache_data ttl f cache now k) k' = Some (e', t')"
    then have "cache k' = Some (e', t') \<or> (k' = k \<and> e' = f k)"
      using Some e by (auto simp: cache_data_def split: if_splits)
    then show "fst e' = fst (f k')"
    proof
      assume "cache k' = Some (e', t')"
      with assms show ?thesis by (rule cache_agreesD)
    next
      assume "k' = k \<and> e' = f k"
      then show ?thesis by simp
    qed
  qed
qed

lemma cache_agrees_empty: "cache_agrees f Map.empty"
  by (simp add: cache_agrees_def)




text \<open>
  Claim C8. Two calls of the decorated \<open>get_fred_rate\<close> with the same series and
  date, at any two times, against the same remote source and starting from a cache
  filled from that source (an empty one, for instance): both return what the
  undecorated function returns, hence the same pair, whether the second call is
  answered from the cache or not. The same holds for \<open>get_current_fred_rate\<close>.
\<close>

theorem cached_calls_agree:
  assumes "cache_agrees (\<lambda>(s, d). get_fred_rate fred_client s d) cache"
    and "cache_agrees (get_current_fred_rate fred_client) cache'"
  shows "fst (fst (cached_get_fred_rate fred_client cache t1 series_id date))
           = fst (get_fred_rate fred_client series_id date)
       \<and> fst (fst (cached_get_fred_rate fred_client
                     (snd (cached_get_fred_rate fred_client cache t1 series_id date))
                     t2 series_id date))
           = fst (fst (cached_get_fred_rate fred_client cache t1 series_id date))
       \<and> fst (fst (cached_get_current_fred_rate fred_client cache' t1 series_id))
           = fst (get_current_fred_rate fred_client series_id)
       \<and> fst (fst (cached_get_current_fred_rate fred_client
                     (snd (cached_get_current_fred_rate fred_client cache' t1 series_id))
                     t2 series_id))
           = fst (fst (cached_get_current_fred_rate fred_client cache' t1 series_id))"
proof -
  let ?f = "\<lambda>(s, d). get_fred_rate fred_client s d"
  let ?g = "get_current_fred_rate fred_client"
  have a1: "fst (fst (cache_data 3600 ?f cache t1 (series_id, date))) = fst (?f (series_id, date))"
    using assms(1) by (rule cache_data_value)
  have "cache_agrees ?f (snd (cache_data 3600 ?f cache t1 (series_id, date)))"
    using assms(1) by (rule cache_data_agrees)
  then have a2: "fst (fst (cache_data 3600 ?f (snd (cache_data 3600 ?f cache t1 (series_id, date)))
                       t2 (series_id, date))) = fst (?f (series_id, date))"
    by (rule cache_data_value)
  have b1: "fst (fst (cache_data 900 ?g cache' t1 series_id)) = fst (?g series_id)"
    using assms(2) by (rule cache_data_value)
  have "cache_agrees ?g (snd (cache_data 900 ?g cache' t1 series_id))"
    using assms(2) by (rule cache_data_agrees)
  then have b2: "fst (fst (cache_data 900 ?g (snd (cache_data 900 ?g cache' t1 series_id))
                       t2 series_id)) = fst (?g series_id)"
    by (rule cache_data_value)
  show ?thesis
    unfolding cached_get_fred_rate_def cached_get_current_fred_rate_def a2 a1 b2 b1 by simp
qed

theorem cached_calls_agree_witness:
  "cache_agrees (\<lambda>(s, d). get_fred_rate example_fred s d) Map.empty
   \<and> cache_agrees (get_current_fred_rate example_fred) Map.empty
   \<and> fst (fst (cached_get_fred_rate example_fred Map.empty 0 ''DGS10'' HISTORICAL_DATE))
       = (Some (Fin (4728779608739021 / 1125899906842624)), Some 739342)
   \<and> fst (fst (cached_get_fred_rate example_fred
                 (snd (cached_get_fred_rate example_fred Map.empty 0 ''DGS10'' HISTORICAL_DATE))
                 60 ''DGS10'' HISTORICAL_DATE))
       = (Some (Fin (4728779608739021 / 1125899906842624)), Some 739342)"
proof -
  note t = cached_calls_agree [of example_fred Map.empty Map.empty 0 "''DGS10''" HISTORICAL_DATE 60,
             OF cache_agrees_empty cache_agrees_empty]
  have r: "fst (get_fred_rate example_fred ''DGS10'' HISTORICAL_DATE)
       = (Some (Fin (4728779608739021 / 1125899906842624)), Some 739342)"
    by (simp add: example_historical)
  have c1: "fst (fst (cached_get_fred_rate example_fred Map.empty 0 ''DGS10'' HISTORICAL_DATE))
       = (Some (Fin (4728779608739021 / 1125899906842624)), Some 739342)"
    using t [THEN conjunct1] r by (rule trans)
  have c2: "fst (fst (cached_get_fred_rate example_fred
                 (snd (cached_get_fred_rate example_fred Map.empty 0 ''DGS10'' HISTORICAL_DATE))
                 60 ''DGS10'' HISTORICAL_DATE))
       = (Some (Fin (4728779608739021 / 1125899906842624)), Some 739342)"
    using t [THEN conjunct2, THEN conjunct1] c1 by (rule trans)
  show ?thesis by (intro conjI cache_agrees_empty c1 c2)
qed

section \<open>The inputs of the script\<close>







end
